theory Spec2Isabelle
  imports Main "HOL-Library.Multiset"
begin

section \<open>Python values shared by the scripts\<close>

text \<open>
  The exceptions that the modelled code can raise.  A function that may raise returns a
  sum: \<open>Inl\<close> the exception, \<open>Inr\<close> the value.
\<close>

datatype pyerror = IndexError | ValueError | OSError | CalledProcessError

subsection \<open>Strings\<close>

text \<open>
  A string is a list of characters with code points below 256.  \<open>isspace\<close> is
  \<^verbatim>\<open>str.isspace\<close> on that range.
\<close>

definition isspace :: "char \<Rightarrow> bool" where
  "isspace c = (of_char c \<in> set [9, 10, 11, 12, 13, 28, 29, 30, 31, 32, 133, 160 :: nat])"

text \<open>\<^verbatim>\<open>s.split()\<close>: the maximal runs of non-whitespace characters, with \<open>w\<close> the run being read.\<close>

fun split_from :: "string \<Rightarrow> string \<Rightarrow> string list" where
  "split_from w [] = (if w = [] then [] else [w])"
| "split_from w (c # cs) =
     (if isspace c then (if w = [] then split_from [] cs else w # split_from [] cs)
      else split_from (w @ [c]) cs)"

definition str_split :: "string \<Rightarrow> string list" where
  "str_split s = split_from [] s"

text \<open>\<^verbatim>\<open>s.strip()\<close>\<close>

definition strip :: "string \<Rightarrow> string" where
  "strip s = rev (dropWhile isspace (rev (dropWhile isspace s)))"

text \<open>\<^verbatim>\<open>' '.join(words)\<close>\<close>

fun join_space :: "string list \<Rightarrow> string" where
  "join_space [] = []"
| "join_space [w] = w"
| "join_space (w # ws) = w @ '' '' @ join_space ws"

text \<open>
  \<^verbatim>\<open>int(w)\<close> for a word without whitespace: an optional sign and one or more ASCII
  digits; anything else raises \<open>ValueError\<close>.  (Digit separators and digits outside
  ASCII are not covered.)
\<close>

definition isdigit :: "char \<Rightarrow> bool" where
  "isdigit c = (48 \<le> (of_char c :: nat) \<and> (of_char c :: nat) \<le> 57)"

definition digits_value :: "string \<Rightarrow> nat" where
  "digits_value ds = foldl (\<lambda>a c. 10 * a + (of_char c - 48)) 0 ds"

definition py_int :: "string \<Rightarrow> pyerror + int" where
  "py_int w =
     (case w of
        [] \<Rightarrow> Inl ValueError
      | c # cs \<Rightarrow>
          if c = CHR ''-'' then
            (if cs \<noteq> [] \<and> list_all isdigit cs then Inr (- int (digits_value cs)) else Inl ValueError)
          else if c = CHR ''+'' then
            (if cs \<noteq> [] \<and> list_all isdigit cs then Inr (int (digits_value cs)) else Inl ValueError)
          else if list_all isdigit w then Inr (int (digits_value w))
          else Inl ValueError)"

text \<open>\<^verbatim>\<open>str(n)\<close> for a natural number, and \<^verbatim>\<open>'{:02d}'.format(num)\<close>.\<close>

function str_nat :: "nat \<Rightarrow> string" where
  "str_nat n = (if n < 10 then [char_of (48 + n)] else str_nat (n div 10) @ [char_of (48 + n mod 10)])"
  by pat_completeness auto
termination
  by (relation "measure id") auto

declare str_nat.simps [simp del]

definition fmt02d :: "int \<Rightarrow> string" where
  "fmt02d num =
     (if num < 0 then CHR ''-'' # str_nat (nat (- num))
      else if num < 10 then CHR ''0'' # str_nat (nat num)
      else str_nat (nat num))"

text \<open>\<^verbatim>\<open>str(n)\<close> for an integer.\<close>

definition str_int :: "int \<Rightarrow> string" where
  "str_int n = (if n < 0 then CHR ''-'' # str_nat (nat (- n)) else str_nat (nat n))"

text \<open>
  \<^verbatim>\<open>s.lower()\<close> on code points below 256: the ASCII capitals and the capitals of
  Latin-1 (192 to 222 without the multiplication sign 215) move up by 32.
\<close>

definition lower_char :: "char \<Rightarrow> char" where
  "lower_char c =
     (let k = (of_char c :: nat)
      in if (65 \<le> k \<and> k \<le> 90) \<or> (192 \<le> k \<and> k \<le> 222 \<and> k \<noteq> 215) then char_of (k + 32) else c)"

definition lower :: "string \<Rightarrow> string" where
  "lower s = map lower_char s"

text \<open>
  List access as Python has it, for indices that are not negative: \<^verbatim>\<open>xs.index(x)\<close> for an
  \<open>x\<close> that occurs in \<open>xs\<close>, and \<^verbatim>\<open>xs[i]\<close>, which raises \<open>IndexError\<close> out of range.
\<close>

definition index_of :: "'a \<Rightarrow> 'a list \<Rightarrow> nat" where
  "index_of x xs = length (takeWhile (\<lambda>y. y \<noteq> x) xs)"

definition item :: "'a list \<Rightarrow> nat \<Rightarrow> pyerror + 'a" where
  "item xs i = (if i < length xs then Inr (xs ! i) else Inl IndexError)"

subsection \<open>Paths\<close>

text \<open>\<^verbatim>\<open>os.path.basename(p)\<close>: what follows the last slash.\<close>

definition basename :: "string \<Rightarrow> string" where
  "basename p = rev (takeWhile (\<lambda>c. c \<noteq> CHR ''/'') (rev p))"

text \<open>
  \<^verbatim>\<open>p.rfind(c)\<close> for a single character, and \<^verbatim>\<open>os.path.splitext(p)\<close> as the standard
  library computes it: the extension starts at the last dot, provided that dot comes after
  the last slash and some character between the two is not a dot.
\<close>

definition rfind :: "char \<Rightarrow> string \<Rightarrow> int" where
  "rfind c p =
     (if c \<in> set p then int (length p) - 1 - int (length (takeWhile (\<lambda>x. x \<noteq> c) (rev p))) else - 1)"

definition splitext :: "string \<Rightarrow> string \<times> string" where
  "splitext p =
     (let sepIndex = rfind (CHR ''/'') p; dotIndex = rfind (CHR ''.'') p
      in if dotIndex > sepIndex
            \<and> list_ex (\<lambda>k. p ! k \<noteq> CHR ''.'') [nat (sepIndex + 1)..<nat dotIndex]
         then (take (nat dotIndex) p, drop (nat dotIndex) p)
         else (p, []))"

section \<open>The host and the effects of a run\<close>

text \<open>
  How a run ends: \<open>Returned\<close> when \<^verbatim>\<open>main\<close> returns, \<open>Raised e\<close> when an exception
  leaves it, \<open>Exited c\<close> after \<^verbatim>\<open>sys.exit(c)\<close>, and \<open>OutOfFuel\<close> when a polling loop
  was still waiting after the number of rounds granted to it.
\<close>

datatype status = Returned | Raised pyerror | Exited int | OutOfFuel

text \<open>
  The lines the scripts print, one constructor for each \<^verbatim>\<open>print\<close> of the sources:
  \<^item> \<open>StartProcessing title ofname\<close>: \<^verbatim>\<open>Start processing "{}" as {}\<close> (make-mp3, \<^verbatim>\<open>startmp3\<close>);
  \<^item> \<open>FinishedProcessing fn\<close>: \<^verbatim>\<open>Finished processing fn\<close> (make-mp3, \<^verbatim>\<open>manageprocs\<close>);
  \<^item> \<open>ExitedWithError fn result\<close>: \<^verbatim>\<open>The conversion of {} exited with error code {}.\<close>;
  \<^item> \<open>NoTracksFound\<close>, and on the error stream \<open>VersionLine binary\<close>, \<open>UsageLine binary\<close>
    and \<open>UsageHint\<close> (make-mp3, \<^verbatim>\<open>main\<close>);
  \<^item> \<open>ConversionFailed fn rv\<close>: \<^verbatim>\<open>Conversion of {} failed, return code {}\<close> (vid2mkv, \<^verbatim>\<open>main\<close>).
\<close>

datatype line =
    StartProcessing string string
  | FinishedProcessing string
  | ExitedWithError string int
  | NoTracksFound
  | VersionLine string
  | UsageLine string
  | UsageHint
  | ConversionFailed string int

text \<open>
  The messages given to \<^verbatim>\<open>logging\<close>, one constructor for each call, and the level of
  each.  The messages are recorded whatever the configured level is.
\<close>

datatype logmsg =
    FoundProgram string
  | ProgramNotFound string
  | UnknownExtension string
  | StartingConversion string string
  | FinishedFile string
  | UsingJpeg
  | NoResolution string
  | Calling "string list"
  | Created string
  | StartFailed string pyerror
  | ConversionFailedLog string int

datatype loglevel = Info | Warning | Error

fun level :: "logmsg \<Rightarrow> loglevel" where
  "level (FoundProgram p) = Info"
| "level (ProgramNotFound p) = Error"
| "level (UnknownExtension f) = Warning"
| "level (StartingConversion f ofn) = Info"
| "level (FinishedFile f) = Info"
| "level UsingJpeg = Info"
| "level (NoResolution f) = Warning"
| "level (Calling args) = Info"
| "level (Created f) = Info"
| "level (StartFailed f e) = Error"
| "level (ConversionFailedLog f rv) = Error"

text \<open>
  What the operating system answers:
  \<^item> \<open>subprocess_call args\<close>: the return code of \<^verbatim>\<open>subprocess.call(args)\<close>, or the
    exception it raises (\<open>OSError\<close> when the program cannot be started);
  \<^item> \<open>check_output args\<close>: the decoded output of \<^verbatim>\<open>subprocess.check_output(args)\<close>, or the
    exception raised by the call or by the decoding;
  \<^item> \<open>file_lines f\<close>: the lines of the text file \<open>f\<close>, \<open>None\<close> when it cannot be opened or read;
  \<^item> \<open>can_read f\<close>: \<^verbatim>\<open>os.access(f, os.R_OK)\<close>;
  \<^item> \<open>popen_starts args\<close>: whether \<^verbatim>\<open>subprocess.Popen(args)\<close> starts a process (it raises
    \<open>OSError\<close> otherwise);
  \<^item> \<open>poll_result p t\<close>: what \<^verbatim>\<open>poll()\<close> answers for the \<open>p\<close>-th process created, asked
    during polling round \<open>t\<close>; \<open>None\<close> while the process runs;
  \<^item> \<open>cpu_count\<close>: the number of processing units that \<^verbatim>\<open>cpu_count()\<close> returns.
\<close>

record host =
  subprocess_call :: "string list \<Rightarrow> pyerror + int"
  check_output :: "string list \<Rightarrow> pyerror + string"
  file_lines :: "string \<Rightarrow> string list option"
  can_read :: "string \<Rightarrow> bool"
  popen_starts :: "string list \<Rightarrow> bool"
  poll_result :: "nat \<Rightarrow> nat \<Rightarrow> int option"
  cpu_count :: nat

text \<open>
  The effects of a run so far:
  \<^item> \<open>calls\<close>: the argument vectors given to \<^verbatim>\<open>subprocess.call\<close> and
    \<^verbatim>\<open>subprocess.check_output\<close>, in order;
  \<^item> \<open>popens\<close>: the argument vectors of the \<^verbatim>\<open>Popen\<close> objects created, in order; a
    \<^verbatim>\<open>Popen\<close> object is identified with its position in this list;
  \<^item> \<open>procs\<close>: the list \<^verbatim>\<open>procs\<close> of make-mp3's \<^verbatim>\<open>main\<close>, pairs of an output file name
    and a \<^verbatim>\<open>Popen\<close> object;
  \<^item> \<open>stdout\<close>, \<open>stderr\<close>, \<open>log\<close>: what was printed and logged;
  \<^item> \<open>clock\<close>: the number of \<^verbatim>\<open>sleep(0.5)\<close> calls, which is the number of polling rounds.
\<close>

record world =
  calls :: "string list list"
  popens :: "string list list"
  procs :: "(string \<times> nat) list"
  stdout :: "line list"
  stderr :: "line list"
  log :: "logmsg list"
  clock :: nat

definition world0 :: world where
  "world0 = \<lparr>calls = [], popens = [], procs = [], stdout = [], stderr = [], log = [], clock = 0\<rparr>"

subsection \<open>\<^verbatim>\<open>checkfor\<close> (vid2mkv.py and tifftopdf.py, the same text in both)\<close>

text \<open>
  The argument of \<^verbatim>\<open>checkfor\<close> is a string or a list of strings.
\<close>

datatype cmd = Single string | Argv "string list"

text \<open>
  The handler \<^verbatim>\<open>except OSError\<close>: it logs the error and calls \<^verbatim>\<open>sys.exit(1)\<close>.
  \<^verbatim>\<open>args[0]\<close> raises \<open>IndexError\<close> on an empty list.
\<close>

definition required_missing :: "string list \<Rightarrow> world \<Rightarrow> status \<times> world" where
  "required_missing args w =
     (case args of
        [] \<Rightarrow> (Raised IndexError, w)
      | a # _ \<Rightarrow> (Exited 1, w\<lparr>log := log w @ [ProgramNotFound a]\<rparr>))"

text \<open>
  The \<^verbatim>\<open>try\<close> block, once \<^verbatim>\<open>args\<close> is a list: the call, the comparison of its return
  code with \<open>rv\<close> (a mismatch raises \<open>OSError\<close>, which the handler catches), and the
  \<^verbatim>\<open>logging.info\<close>.  An exception other than \<open>OSError\<close> is not caught.
\<close>

definition checkfor_list :: "(string list \<Rightarrow> pyerror + int) \<Rightarrow> string list \<Rightarrow> int \<Rightarrow> world \<Rightarrow> status \<times> world" where
  "checkfor_list call args rv w =
     (let w1 = w\<lparr>calls := calls w @ [args]\<rparr> in
      case call args of
        Inl e \<Rightarrow> if e = OSError then required_missing args w1 else (Raised e, w1)
      | Inr rc \<Rightarrow>
          if rc \<noteq> rv then required_missing args w1
          else (case args of
                  [] \<Rightarrow> (Raised IndexError, w1)
                | a # _ \<Rightarrow> (Returned, w1\<lparr>log := log w1 @ [FoundProgram a]\<rparr>)))"

definition checkfor :: "(string list \<Rightarrow> pyerror + int) \<Rightarrow> cmd \<Rightarrow> int \<Rightarrow> world \<Rightarrow> status \<times> world" where
  "checkfor call args rv w =
     (case args of
        Single a \<Rightarrow>
          if CHR '' '' \<in> set a then (Raised ValueError, w) else checkfor_list call [a] rv w
      | Argv as \<Rightarrow> checkfor_list call as rv w)"

section \<open>make-mp3.py\<close>

subsection \<open>The track listing: \<^verbatim>\<open>trackdata\<close>\<close>

text \<open>
  A track is the tuple the source builds:
  \<open>(num, title, artist, album, ifname, ofname)\<close>.
\<close>

type_synonym tinfo = "int \<times> string \<times> string \<times> string \<times> string \<times> string"

definition wav_name :: "int \<Rightarrow> string" where
  "wav_name num = ''track'' @ fmt02d num @ ''.cdda.wav''"

definition mp3_name :: "int \<Rightarrow> string" where
  "mp3_name num = ''track'' @ fmt02d num @ ''.mp3''"

text \<open>
  The loop \<^verbatim>\<open>for l in lines\<close> of \<^verbatim>\<open>trackdata\<close>, with the list \<open>tracks\<close> built so far.
  \<open>readable\<close> answers \<^verbatim>\<open>os.access(ifname, os.R_OK)\<close>.
\<close>

fun track_loop :: "(string \<Rightarrow> bool) \<Rightarrow> string \<Rightarrow> string \<Rightarrow> string list \<Rightarrow> tinfo list \<Rightarrow> pyerror + tinfo list" where
  "track_loop readable artist album [] tracks = Inr tracks"
| "track_loop readable artist album (l # ls) tracks =
     (case str_split l of
        [] \<Rightarrow> track_loop readable artist album ls tracks
      | w # words \<Rightarrow>
          (case py_int w of
             Inl e \<Rightarrow> Inl e
           | Inr num \<Rightarrow>
               if readable (wav_name num)
               then track_loop readable artist album ls
                      (tracks @ [(num, join_space words, artist, album, wav_name num, mp3_name num)])
               else track_loop readable artist album ls tracks))"

text \<open>
  \<^verbatim>\<open>trackdata(fname)\<close>.  \<open>read_lines fname\<close> is \<open>None\<close> when opening or reading the
  file raises \<^verbatim>\<open>IOError\<close>, and the result of \<^verbatim>\<open>readlines()\<close> otherwise.  The two
  \<^verbatim>\<open>lines.pop(0)\<close> raise \<open>IndexError\<close> on an empty list.
\<close>

definition trackdata :: "(string \<Rightarrow> string list option) \<Rightarrow> (string \<Rightarrow> bool) \<Rightarrow> string \<Rightarrow> pyerror + tinfo list" where
  "trackdata read_lines readable fname =
     (case read_lines fname of
        None \<Rightarrow> Inr []
      | Some lines \<Rightarrow>
          (case lines of
             [] \<Rightarrow> Inl IndexError
           | l1 # lines1 \<Rightarrow>
               (case lines1 of
                  [] \<Rightarrow> Inl IndexError
                | l2 # lines2 \<Rightarrow> track_loop readable (strip l2) (strip l1) lines2 [])))"

subsection \<open>Starting a conversion: \<^verbatim>\<open>startmp3\<close>\<close>

definition lame_args :: "tinfo \<Rightarrow> string list" where
  "lame_args tinfo =
     (case tinfo of (num, title, artist, album, ifname, ofname) \<Rightarrow>
        [''lame'', ''-S'', ''--preset'', ''standard'', ''--tt'', title, ''--ta'', artist,
         ''--tl'', album, ''--tn'', fmt02d num, ifname, ofname])"

text \<open>
  \<^verbatim>\<open>startmp3(tinfo)\<close> creates the \<^verbatim>\<open>Popen\<close> object, prints the start line and returns
  the pair of the output file name and the object.  When \<^verbatim>\<open>Popen\<close> raises, nothing has
  been printed.
\<close>

definition startmp3 :: "(string list \<Rightarrow> bool) \<Rightarrow> tinfo \<Rightarrow> world \<Rightarrow> (pyerror + string \<times> nat) \<times> world" where
  "startmp3 popen_ok tinfo w =
     (case tinfo of (num, title, artist, album, ifname, ofname) \<Rightarrow>
        if popen_ok (lame_args tinfo)
        then (Inr (ofname, length (popens w)),
              w\<lparr>popens := popens w @ [lame_args tinfo],
                stdout := stdout w @ [StartProcessing title ofname]\<rparr>)
        else (Inl OSError, w))"

subsection \<open>Polling: \<^verbatim>\<open>manageprocs\<close>\<close>

text \<open>The line printed for a process that has ended with \<open>result\<close>.\<close>

definition outcome_line :: "string \<Rightarrow> int \<Rightarrow> line" where
  "outcome_line fn result = (if result = 0 then FinishedProcessing fn else ExitedWithError fn result)"

text \<open>
  The loop \<^verbatim>\<open>for it in proclist\<close> of \<^verbatim>\<open>manageprocs\<close>.  The list is changed while it is
  iterated, so the model keeps the position \<open>i\<close> of the iterator: the iteration ends when
  \<open>i\<close> reaches the current length, and after \<^verbatim>\<open>proclist.remove(it)\<close> the position still
  advances, which passes over the item that has moved into the place of the removed one.
  \<^verbatim>\<open>remove\<close> deletes the first item equal to \<open>it\<close>.  \<open>t\<close> is the polling round.
\<close>

function manage_loop :: "(nat \<Rightarrow> nat \<Rightarrow> int option) \<Rightarrow> nat \<Rightarrow> nat \<Rightarrow> (string \<times> nat) list \<Rightarrow> line list
    \<Rightarrow> (string \<times> nat) list \<times> line list" where
  "manage_loop poll t i proclist out =
     (if i < length proclist then
        (case poll (snd (proclist ! i)) t of
           None \<Rightarrow> manage_loop poll t (i + 1) proclist out
         | Some result \<Rightarrow>
             manage_loop poll t (i + 1) (remove1 (proclist ! i) proclist)
               (out @ [outcome_line (fst (proclist ! i)) result]))
      else (proclist, out))"
  by pat_completeness auto
termination
  by (relation "measure (\<lambda>(poll, t, i, proclist, out). length proclist - i)")
    (auto simp: length_remove1)

declare manage_loop.simps [simp del]

text \<open>\<^verbatim>\<open>manageprocs(proclist)\<close>: one pass over the list, then \<^verbatim>\<open>sleep(0.5)\<close>.\<close>

definition manageprocs :: "(nat \<Rightarrow> nat \<Rightarrow> int option) \<Rightarrow> world \<Rightarrow> world" where
  "manageprocs poll w =
     (case manage_loop poll (clock w) 0 (procs w) (stdout w) of
        (proclist, out) \<Rightarrow> w\<lparr>procs := proclist, stdout := out, clock := clock w + 1\<rparr>)"

subsection \<open>The dispatcher: \<^verbatim>\<open>main\<close>\<close>

text \<open>
  The two \<^verbatim>\<open>while\<close> loops of \<^verbatim>\<open>main\<close> may run for ever (a process that never ends, or
  a limit of zero), so each takes the number \<open>n\<close> of rounds it may wait; a loop that needs
  more stops with \<open>OutOfFuel\<close> in the state it has reached.

  \<^verbatim>\<open>while len(procs) == maxprocs: manageprocs(procs)\<close>
\<close>

fun wait_for_slot :: "(nat \<Rightarrow> nat \<Rightarrow> int option) \<Rightarrow> nat \<Rightarrow> nat \<Rightarrow> world \<Rightarrow> status \<times> world" where
  "wait_for_slot poll maxprocs 0 w =
     (if length (procs w) = maxprocs then (OutOfFuel, w) else (Returned, w))"
| "wait_for_slot poll maxprocs (Suc n) w =
     (if length (procs w) = maxprocs then wait_for_slot poll maxprocs n (manageprocs poll w)
      else (Returned, w))"

text \<open>
  \<^verbatim>\<open>for track in tracks\<close>: wait for a free slot, start the conversion and append it to
  \<^verbatim>\<open>procs\<close>.  An exception of \<^verbatim>\<open>startmp3\<close> leaves \<^verbatim>\<open>main\<close>.
\<close>

fun start_tracks :: "(string list \<Rightarrow> bool) \<Rightarrow> (nat \<Rightarrow> nat \<Rightarrow> int option) \<Rightarrow> nat \<Rightarrow> nat \<Rightarrow> tinfo list \<Rightarrow> world
    \<Rightarrow> status \<times> world" where
  "start_tracks popen_ok poll maxprocs n [] w = (Returned, w)"
| "start_tracks popen_ok poll maxprocs n (track # tracks) w =
     (case wait_for_slot poll maxprocs n w of
        (st, w1) \<Rightarrow>
          if st \<noteq> Returned then (st, w1)
          else
            (case startmp3 popen_ok track w1 of
               (Inl e, w2) \<Rightarrow> (Raised e, w2)
             | (Inr p, w2) \<Rightarrow>
                 start_tracks popen_ok poll maxprocs n tracks (w2\<lparr>procs := procs w2 @ [p]\<rparr>)))"

text \<open>\<^verbatim>\<open>while len(procs) > 0: manageprocs(procs)\<close>\<close>

fun drain :: "(nat \<Rightarrow> nat \<Rightarrow> int option) \<Rightarrow> nat \<Rightarrow> world \<Rightarrow> status \<times> world" where
  "drain poll 0 w = (if length (procs w) > 0 then (OutOfFuel, w) else (Returned, w))"
| "drain poll (Suc n) w =
     (if length (procs w) > 0 then drain poll n (manageprocs poll w) else (Returned, w))"

text \<open>The last lines of \<^verbatim>\<open>main\<close>, from \<^verbatim>\<open>maxprocs = cpu_count()\<close> on.\<close>

definition dispatch :: "host \<Rightarrow> nat \<Rightarrow> tinfo list \<Rightarrow> world \<Rightarrow> status \<times> world" where
  "dispatch h n tracks w =
     (case start_tracks (popen_starts h) (poll_result h) (cpu_count h) n tracks w of
        (st, w1) \<Rightarrow> if st \<noteq> Returned then (st, w1) else drain (poll_result h) n w1)"

text \<open>
  Modelled from the spec: make-mp3.py imports \<^verbatim>\<open>checkfor\<close> from a module that is not
  among the sources.  The specification's tool-presence checker verifies that the command
  can be invoked and otherwise ends the whole program with exit code 1 before any item is
  processed; \<open>checkfor\<close> of the two other scripts does exactly that, and it stands for the
  missing function here, with the expected return value 0.
\<close>

definition checkfor_mp3 :: "(string list \<Rightarrow> pyerror + int) \<Rightarrow> string list \<Rightarrow> world \<Rightarrow> status \<times> world" where
  "checkfor_mp3 call args w = checkfor call (Argv args) 0 w"

text \<open>
  \<^verbatim>\<open>main(argv)\<close>.  Without tracks it prints the usage and calls \<^verbatim>\<open>sys.exit(1)\<close>;
  \<^verbatim>\<open>argv[0]\<close> raises \<open>IndexError\<close> on an empty list.  The version string of the source is
  empty.
\<close>

definition main_mp3 :: "host \<Rightarrow> nat \<Rightarrow> string list \<Rightarrow> status \<times> world" where
  "main_mp3 h n argv =
     (case checkfor_mp3 (subprocess_call h) [''lame'', ''--help''] world0 of
        (st, w) \<Rightarrow>
          if st \<noteq> Returned then (st, w)
          else
            (case trackdata (file_lines h) (can_read h) ''titels'' of
               Inl e \<Rightarrow> (Raised e, w)
             | Inr tracks \<Rightarrow>
                 if tracks = [] then
                   (case argv of
                      [] \<Rightarrow> (Raised IndexError, w\<lparr>stdout := stdout w @ [NoTracksFound]\<rparr>)
                    | a # _ \<Rightarrow>
                        (Exited 1,
                         w\<lparr>stdout := stdout w @ [NoTracksFound],
                           stderr := stderr w @ [VersionLine (basename a), UsageLine (basename a), UsageHint]\<rparr>))
                 else dispatch h n tracks w))"

section \<open>vid2mkv.py\<close>

text \<open>
  The model starts after the command line has been parsed: \<open>vq\<close>, \<open>aq\<close> and \<open>files\<close> are
  the parsed video quality, audio quality and file names.
\<close>

definition known :: "string list" where
  "known = [''.mp4'', ''.avi'', ''.wmv'', ''.flv'', ''.mpg'', ''.mpeg'', ''.mov'', ''.ogv'',
            ''.mkv'', ''.webm'']"

text \<open>The output name \<^verbatim>\<open>ofn = basename + '.mkv'\<close> of \<^verbatim>\<open>runencoder\<close>.\<close>

definition mkv_name :: "string \<Rightarrow> string" where
  "mkv_name fname = fst (splitext fname) @ ''.mkv''"

definition ffmpeg_args :: "string \<Rightarrow> int \<Rightarrow> int \<Rightarrow> string list" where
  "ffmpeg_args fname vq aq =
     [''ffmpeg'', ''-i'', fname, ''-c:v'', ''libtheora'', ''-q:v'', str_int vq,
      ''-c:a'', ''libvorbis'', ''-q:a'', str_int aq, ''-sn'', ''-y'', mkv_name fname]"

text \<open>
  \<^verbatim>\<open>runencoder(fname, vq, aq)\<close>.  A file with an unknown extension is skipped with a
  warning and the return value 0.  An exception of \<^verbatim>\<open>subprocess.call\<close> is not caught.
\<close>

definition runencoder :: "(string list \<Rightarrow> pyerror + int) \<Rightarrow> int \<Rightarrow> int \<Rightarrow> string \<Rightarrow> world
    \<Rightarrow> (pyerror + string \<times> int) \<times> world" where
  "runencoder call vq aq fname w =
     (if lower (snd (splitext fname)) \<notin> set known
      then (Inr (fname, 0), w\<lparr>log := log w @ [UnknownExtension fname]\<rparr>)
      else
        (let w1 = w\<lparr>log := log w @ [StartingConversion fname (mkv_name fname)],
                    calls := calls w @ [ffmpeg_args fname vq aq]\<rparr>
         in case call (ffmpeg_args fname vq aq) of
              Inl e \<Rightarrow> (Inl e, w1)
            | Inr rv \<Rightarrow> (Inr (fname, rv), w1\<lparr>log := log w1 @ [FinishedFile (mkv_name fname)]\<rparr>)))"

text \<open>
  \<^verbatim>\<open>ThreadPoolExecutor.map(f, xs)\<close>: every item is run, and the results come in the order
  of the items.  The model runs the items one after the other, which is the schedule of a
  pool with one worker; the host answers a call from its arguments alone, so the results
  are those of every other schedule.
\<close>

fun pool_map :: "('a \<Rightarrow> world \<Rightarrow> 'b \<times> world) \<Rightarrow> 'a list \<Rightarrow> world \<Rightarrow> 'b list \<times> world" where
  "pool_map f [] w = ([], w)"
| "pool_map f (x # xs) w =
     (case f x w of (r, w1) \<Rightarrow> (case pool_map f xs w1 of (rs, w2) \<Rightarrow> (r # rs, w2)))"

text \<open>
  Reading the results re-raises the exception of the first item that raised one; with no
  exception, the list of results.
\<close>

fun results :: "(pyerror + 'a) list \<Rightarrow> pyerror + 'a list" where
  "results [] = Inr []"
| "results (Inl e # rs) = Inl e"
| "results (Inr v # rs) = (case results rs of Inl e \<Rightarrow> Inl e | Inr vs \<Rightarrow> Inr (v # vs))"

text \<open>\<^verbatim>\<open>main\<close>, from \<^verbatim>\<open>checkfor(['ffmpeg', '-version'])\<close> on.\<close>

definition main_vid :: "host \<Rightarrow> int \<Rightarrow> int \<Rightarrow> string list \<Rightarrow> status \<times> world" where
  "main_vid h vq aq files =
     (case checkfor (subprocess_call h) (Argv [''ffmpeg'', ''-version'']) 0 world0 of
        (st, w) \<Rightarrow>
          if st \<noteq> Returned then (st, w)
          else
            (case pool_map (runencoder (subprocess_call h) vq aq) files w of
               (rs, w1) \<Rightarrow>
                 (case results rs of
                    Inl e \<Rightarrow> (Raised e, w1)
                  | Inr convs \<Rightarrow>
                      (Returned,
                       w1\<lparr>stdout := stdout w1
                            @ map (\<lambda>(fn, rv). ConversionFailed fn rv) (filter (\<lambda>(fn, rv). rv \<noteq> 0) convs)\<rparr>))))"

section \<open>tifftopdf.py\<close>

text \<open>
  The model starts after the command line has been parsed: \<open>jpeg\<close>, \<open>quality\<close> and
  \<open>files\<close> are the parsed options and file names.

  Floating-point numbers are not modelled; the script's use of them is a parameter:
  \<open>parse_float s\<close> is \<^verbatim>\<open>float(s)\<close> (\<open>None\<close> when it raises \<open>ValueError\<close>), \<open>is_zero x\<close>
  tells whether \<open>x\<close> counts as false, \<open>fdiv\<close> is the division and \<open>fstr\<close> is \<^verbatim>\<open>str\<close>.
\<close>

record 'f pyfloat =
  parse_float :: "string \<Rightarrow> 'f option"
  is_zero :: "'f \<Rightarrow> bool"
  fdiv :: "'f \<Rightarrow> 'f \<Rightarrow> 'f"
  fstr :: "'f \<Rightarrow> string"

definition to_float :: "'f pyfloat \<Rightarrow> string \<Rightarrow> pyerror + 'f" where
  "to_float fl s = (case parse_float fl s of None \<Rightarrow> Inl ValueError | Some x \<Rightarrow> Inr x)"

text \<open>
  \<^verbatim>\<open>re.sub('\.tif{1,2}?$', '.pdf', fname, flags=re.IGNORECASE)\<close>: the string is scanned
  from the left for a place where \<^verbatim>\<open>.tif\<close> or \<^verbatim>\<open>.tiff\<close>, in any case, reaches the end
  of the string or the line feed that ends the string.
\<close>

fun tiff_outname :: "string \<Rightarrow> string" where
  "tiff_outname [] = []"
| "tiff_outname (c # cs) =
     (if lower (c # cs) \<in> set [''.tif'', ''.tiff''] then ''.pdf''
      else if lower (c # cs) \<in> set [''.tif'' @ [CHR 0x0A], ''.tiff'' @ [CHR 0x0A]] then ''.pdf'' @ [CHR 0x0A]
      else c # tiff_outname cs)"

text \<open>
  The inner \<^verbatim>\<open>try\<close> of \<^verbatim>\<open>tiffconv\<close>: the resolution read from the words of tiffinfo's
  output.  Its handler catches \<open>ValueError\<close> (no \<^verbatim>\<open>Resolution:\<close>, or a number that does not
  parse) and gives \<open>None\<close>; an \<open>IndexError\<close> leaves the block.
\<close>

definition resolution :: "'f pyfloat \<Rightarrow> string list \<Rightarrow> pyerror + ('f \<times> 'f) option" where
  "resolution fl txt =
     (if ''Resolution:'' \<notin> set txt then Inr None
      else
        (let index = index_of ''Resolution:'' txt in
         case item txt (index + 1) of
           Inl e \<Rightarrow> Inl e
         | Inr s1 \<Rightarrow>
             (case parse_float fl (butlast s1) of
                None \<Rightarrow> Inr None
              | Some xres \<Rightarrow>
                  (case item txt (index + 2) of
                     Inl e \<Rightarrow> Inl e
                   | Inr s2 \<Rightarrow>
                       (case parse_float fl s2 of
                          None \<Rightarrow> Inr None
                        | Some yres \<Rightarrow> Inr (Some (xres, yres)))))))"

text \<open>The two argument lists of \<^verbatim>\<open>tiffconv\<close>, and the test \<^verbatim>\<open>if xres\<close> that chooses.\<close>

definition sized_args :: "'f pyfloat \<Rightarrow> 'f \<Rightarrow> 'f \<Rightarrow> 'f \<Rightarrow> 'f \<Rightarrow> string \<Rightarrow> string list" where
  "sized_args fl width len xres yres fname =
     [''-w'', fstr fl (fdiv fl width xres), ''-l'', fstr fl (fdiv fl len xres),
      ''-x'', fstr fl xres, ''-y'', fstr fl yres, ''-o'', tiff_outname fname, fname]"

definition a4_args :: "string \<Rightarrow> string list" where
  "a4_args fname = [''-o'', tiff_outname fname, ''-z'', ''-p'', ''A4'', ''-F'', fname]"

definition has_resolution :: "'f pyfloat \<Rightarrow> ('f \<times> 'f) option \<Rightarrow> bool" where
  "has_resolution fl res = (case res of None \<Rightarrow> False | Some (xres, yres) \<Rightarrow> \<not> is_zero fl xres)"

text \<open>
  The rest of the outer \<^verbatim>\<open>try\<close> block, from \<^verbatim>\<open>outname = ...\<close> to the \<^verbatim>\<open>return\<close>.
\<close>

definition convert :: "host \<Rightarrow> 'f pyfloat \<Rightarrow> bool \<Rightarrow> int \<Rightarrow> string \<Rightarrow> 'f \<Rightarrow> 'f \<Rightarrow> ('f \<times> 'f) option \<Rightarrow> world
    \<Rightarrow> (pyerror + int) \<times> world" where
  "convert h fl jpeg quality fname width len res w =
     (let args = (case res of
                    None \<Rightarrow> a4_args fname
                  | Some (xres, yres) \<Rightarrow>
                      if has_resolution fl res then sized_args fl width len xres yres fname
                      else a4_args fname);
          w1 = (if has_resolution fl res then w else w\<lparr>log := log w @ [NoResolution fname]\<rparr>);
          args1 = (if jpeg then [''tiff2pdf''] @ [''-n'', ''-j'', ''-q'', str_int quality] @ args
                   else [''tiff2pdf''] @ args);
          w2 = w1\<lparr>log := log w1 @ [Calling args1], calls := calls w1 @ [args1]\<rparr>
      in case subprocess_call h args1 of
           Inl e \<Rightarrow> (Inl e, w2)
         | Inr rv \<Rightarrow> (Inr rv, w2\<lparr>log := log w2 @ [Created (tiff_outname fname)]\<rparr>))"

text \<open>
  The outer \<^verbatim>\<open>try\<close> block of \<^verbatim>\<open>tiffconv\<close>: the call of tiffinfo, the width and the
  length, the resolution, and the conversion.  \<open>Inl e\<close> is an exception raised in the block.
\<close>

definition tiffconv_try :: "host \<Rightarrow> 'f pyfloat \<Rightarrow> bool \<Rightarrow> int \<Rightarrow> string \<Rightarrow> world \<Rightarrow> (pyerror + int) \<times> world" where
  "tiffconv_try h fl jpeg quality fname w =
     (let w1 = w\<lparr>calls := calls w @ [[''tiffinfo'', fname]]\<rparr> in
      case check_output h [''tiffinfo'', fname] of
        Inl e \<Rightarrow> (Inl e, w1)
      | Inr text \<Rightarrow>
          (let txt = str_split text in
           if ''Width:'' \<notin> set txt then (Inl ValueError, w1)
           else
             (let index = index_of ''Width:'' txt in
              case item txt (index + 1) of
                Inl e \<Rightarrow> (Inl e, w1)
              | Inr s1 \<Rightarrow>
                  (case to_float fl s1 of
                     Inl e \<Rightarrow> (Inl e, w1)
                   | Inr width \<Rightarrow>
                       (case item txt (index + 4) of
                          Inl e \<Rightarrow> (Inl e, w1)
                        | Inr s4 \<Rightarrow>
                            (case to_float fl s4 of
                               Inl e \<Rightarrow> (Inl e, w1)
                             | Inr len \<Rightarrow>
                                 (case resolution fl txt of
                                    Inl e \<Rightarrow> (Inl e, w1)
                                  | Inr res \<Rightarrow> convert h fl jpeg quality fname width len res w1)))))))"

text \<open>
  \<^verbatim>\<open>tiffconv(fname, jpeg, quality)\<close>: the handler \<^verbatim>\<open>except Exception\<close> logs the error and
  returns \<^verbatim>\<open>(fname, 0)\<close>.
\<close>

definition tiffconv :: "host \<Rightarrow> 'f pyfloat \<Rightarrow> bool \<Rightarrow> int \<Rightarrow> string \<Rightarrow> world \<Rightarrow> (string \<times> int) \<times> world" where
  "tiffconv h fl jpeg quality fname w =
     (case tiffconv_try h fl jpeg quality fname w of
        (Inl e, w1) \<Rightarrow> ((fname, 0), w1\<lparr>log := log w1 @ [StartFailed fname e]\<rparr>)
      | (Inr rv, w1) \<Rightarrow> ((fname, rv), w1))"

text \<open>The line \<^verbatim>\<open>main\<close> logs for a result.\<close>

definition report :: "string \<times> int \<Rightarrow> logmsg" where
  "report r = (case r of (fn, rv) \<Rightarrow> if rv = 0 then FinishedFile fn else ConversionFailedLog fn rv)"

text \<open>
  \<^verbatim>\<open>main\<close>, from \<^verbatim>\<open>checkfor('tiffinfo', 255)\<close> on.  Without \<^verbatim>\<open>--jpeg\<close> the function
  mapped over the files is \<^verbatim>\<open>tiffconv\<close> with its defaults.
\<close>

definition main_tiff :: "host \<Rightarrow> 'f pyfloat \<Rightarrow> bool \<Rightarrow> int \<Rightarrow> string list \<Rightarrow> status \<times> world" where
  "main_tiff h fl jpeg quality files =
     (case checkfor (subprocess_call h) (Single ''tiffinfo'') 255 world0 of
        (st, w) \<Rightarrow>
          if st \<noteq> Returned then (st, w)
          else
            (case checkfor (subprocess_call h) (Argv [''tiff2pdf'', ''-v'']) 0 w of
               (st1, w1) \<Rightarrow>
                 if st1 \<noteq> Returned then (st1, w1)
                 else
                   (let w2 = (if jpeg then w1\<lparr>log := log w1 @ [UsingJpeg]\<rparr> else w1);
                        func = (if jpeg then tiffconv h fl True quality else tiffconv h fl False 85)
                    in case pool_map func files w2 of
                         (rs, w3) \<Rightarrow> (Returned, w3\<lparr>log := log w3 @ map report rs\<rparr>))))"

section \<open>What the properties are stated with\<close>

text \<open>
  The listing as the specification describes it, for comparison with \<open>trackdata\<close>: the
  number of a track line, and the items of the lines that are not blank and whose input
  file is readable, in the order of the listing.
\<close>

definition line_num :: "string \<Rightarrow> int option" where
  "line_num l = (case str_split l of [] \<Rightarrow> None | w # words \<Rightarrow> (case py_int w of Inl e \<Rightarrow> None | Inr num \<Rightarrow> Some num))"

definition line_item :: "string \<Rightarrow> string \<Rightarrow> string \<Rightarrow> tinfo" where
  "line_item artist album l =
     (let num = the (line_num l)
      in (num, join_space (tl (str_split l)), artist, album, wav_name num, mp3_name num))"

definition listed_tracks :: "(string \<Rightarrow> bool) \<Rightarrow> string \<Rightarrow> string \<Rightarrow> string list \<Rightarrow> tinfo list" where
  "listed_tracks readable artist album ls =
     map (line_item artist album)
       (filter (\<lambda>l. readable (wav_name (the (line_num l)))) (filter (\<lambda>l. str_split l \<noteq> []) ls))"

subsection \<open>Reading a run\<close>

text \<open>
  The exit status of the interpreter: 0 after a return, the argument of \<^verbatim>\<open>sys.exit\<close>, 1
  after an exception that nothing caught; no status while a loop is still waiting.
\<close>

fun exit_code :: "status \<Rightarrow> int option" where
  "exit_code Returned = Some 0"
| "exit_code (Exited c) = Some c"
| "exit_code (Raised e) = Some 1"
| "exit_code OutOfFuel = None"

text \<open>
  The number of conversions that the output shows as started and not yet reported: each
  start line counts one up, each line for a finished or failed conversion counts one down.
\<close>

fun delta :: "line \<Rightarrow> int" where
  "delta (StartProcessing title ofname) = 1"
| "delta (FinishedProcessing fn) = - 1"
| "delta (ExitedWithError fn result) = - 1"
| "delta l = 0"

definition running :: "line list \<Rightarrow> int" where
  "running out = sum_list (map delta out)"

text \<open>
  The invariant of the dispatcher for the limit \<open>m\<close>: at most \<open>m\<close> processes are in
  \<open>procs\<close>, the output shows exactly these as running, and no prefix of the output ever
  showed more than \<open>m\<close>.
\<close>

definition bounded :: "nat \<Rightarrow> world \<Rightarrow> bool" where
  "bounded m w \<longleftrightarrow>
     length (procs w) \<le> m \<and> running (stdout w) = int (length (procs w))
     \<and> (\<forall>k. running (take k (stdout w)) \<le> int m)"

text \<open>The lines that report the end of a conversion, and the two kinds of them.\<close>

fun is_outcome :: "line \<Rightarrow> bool" where
  "is_outcome (FinishedProcessing fn) = True"
| "is_outcome (ExitedWithError fn result) = True"
| "is_outcome l = False"

fun is_success :: "line \<Rightarrow> bool" where
  "is_success (FinishedProcessing fn) = True"
| "is_success l = False"

fun is_failure :: "line \<Rightarrow> bool" where
  "is_failure (ExitedWithError fn result) = True"
| "is_failure l = False"

definition track_ofname :: "tinfo \<Rightarrow> string" where
  "track_ofname tinfo = (case tinfo of (num, title, artist, album, ifname, ofname) \<Rightarrow> ofname)"

text \<open>
  The bookkeeping of the dispatcher once the tracks \<open>started\<close> have been started, when
  process \<open>p\<close> ends with \<open>code p\<close>: they are the processes created, every process in
  \<open>procs\<close> is one of them, and the lines already printed together with the lines still
  owed to the processes in \<open>procs\<close> are one line for each started track.
\<close>

definition accounted :: "(nat \<Rightarrow> int) \<Rightarrow> tinfo list \<Rightarrow> world \<Rightarrow> bool" where
  "accounted code started w \<longleftrightarrow>
     popens w = map lame_args started
     \<and> (\<forall>x \<in> set (procs w). snd x < length started)
     \<and> mset (filter is_outcome (stdout w))
         + mset (map (\<lambda>x. outcome_line (fst x) (code (snd x))) (procs w))
       = mset (map (\<lambda>p. outcome_line (track_ofname (started ! p)) (code p)) [0..<length started])"

text \<open>
  A probe of \<^verbatim>\<open>checkfor\<close> fails when the command cannot be started or does not
  return the expected value.
\<close>

definition probe_fails :: "(string list \<Rightarrow> pyerror + int) \<Rightarrow> string list \<Rightarrow> int \<Rightarrow> bool" where
  "probe_fails call args rv = (case call args of Inl e \<Rightarrow> e = OSError | Inr rc \<Rightarrow> rc \<noteq> rv)"

text \<open>The command line that \<^verbatim>\<open>tiffconv\<close> builds around the page arguments \<open>args\<close>.\<close>

definition tiff2pdf_cmd :: "bool \<Rightarrow> int \<Rightarrow> string list \<Rightarrow> string list" where
  "tiff2pdf_cmd jpeg quality args =
     (if jpeg then [''tiff2pdf'', ''-n'', ''-j'', ''-q'', str_int quality] @ args else ''tiff2pdf'' # args)"

subsection \<open>Example hosts\<close>

text \<open>
  A directory with the listing of three tracks and all three WAV files, on a machine with
  two processing units where lame is installed; \<open>poll\<close> says when the conversions end.
\<close>

definition demo_listing :: "string list" where
  "demo_listing =
     [''Demo'' @ [CHR 0x0A], ''Artist'' @ [CHR 0x0A], ''01 First'' @ [CHR 0x0A],
      ''02 Second'' @ [CHR 0x0A], ''03 Third'' @ [CHR 0x0A]]"

definition demo_tracks :: "tinfo list" where
  "demo_tracks =
     [(1, ''First'', ''Artist'', ''Demo'', ''track01.cdda.wav'', ''track01.mp3''),
      (2, ''Second'', ''Artist'', ''Demo'', ''track02.cdda.wav'', ''track02.mp3''),
      (3, ''Third'', ''Artist'', ''Demo'', ''track03.cdda.wav'', ''track03.mp3'')]"

definition demo_host :: "(nat \<Rightarrow> nat \<Rightarrow> int option) \<Rightarrow> host" where
  "demo_host poll =
     \<lparr>subprocess_call = (\<lambda>args. Inr 0),
      check_output = (\<lambda>args. Inl OSError),
      file_lines = (\<lambda>f. if f = ''titels'' then Some demo_listing else None),
      can_read = (\<lambda>f. True),
      popen_starts = (\<lambda>args. True),
      poll_result = poll,
      cpu_count = 2\<rparr>"

text \<open>The same machine in a directory without a listing.\<close>

definition empty_host :: host where
  "empty_host =
     \<lparr>subprocess_call = (\<lambda>args. Inr 0),
      check_output = (\<lambda>args. Inl OSError),
      file_lines = (\<lambda>f. None),
      can_read = (\<lambda>f. False),
      popen_starts = (\<lambda>args. True),
      poll_result = (\<lambda>p t. Some 0),
      cpu_count = 2\<rparr>"

text \<open>
  A machine where the probes of tifftopdf and vid2mkv succeed when \<open>installed\<close> holds,
  tiffinfo answers \<open>info\<close> for every file, and every conversion answers \<open>convert_result\<close>.
\<close>

definition tool_host :: "bool \<Rightarrow> pyerror + string \<Rightarrow> pyerror + int \<Rightarrow> host" where
  "tool_host installed info convert_result =
     \<lparr>subprocess_call = (\<lambda>args.
        if \<not> installed then Inl OSError
        else if args = [''tiffinfo''] then Inr 255
        else if args = [''tiff2pdf'', ''-v''] \<or> args = [''ffmpeg'', ''-version''] then Inr 0
        else convert_result),
      check_output = (\<lambda>args. info),
      file_lines = (\<lambda>f. None),
      can_read = (\<lambda>f. True),
      popen_starts = (\<lambda>args. True),
      poll_result = (\<lambda>p t. Some 0),
      cpu_count = 2\<rparr>"

text \<open>The output of tiffinfo for an image without resolution.\<close>

definition demo_info :: string where
  "demo_info = ''TIFF Directory at offset 0x8 (8) Image Width: 100 Image Length: 200 Bits/Sample: 8''"

text \<open>
  The machine of \<open>demo_host\<close> where every conversion ends at once with status 0, but only
  the conversion of the first track can be started.
\<close>

definition flaky_host :: host where
  "flaky_host =
     (demo_host (\<lambda>p t. Some 0))
       \<lparr>popen_starts := (\<lambda>args. args = lame_args (1, ''First'', ''Artist'', ''Demo'', ''track01.cdda.wav'', ''track01.mp3''))\<rparr>"

text \<open>An output of tiffinfo that names neither width nor resolution.\<close>

definition bare_info :: string where
  "bare_info = ''TIFF Directory at offset 0x8 (8)''"

text \<open>The output of tiffinfo for an image with a horizontal resolution of zero.\<close>

definition zero_info :: string where
  "zero_info = demo_info @ '' Resolution: 0, 300 pixels/inch''"

text \<open>Numbers written with decimal digits only, standing in for the floating-point numbers.\<close>

definition demo_floats :: "nat pyfloat" where
  "demo_floats =
     \<lparr>parse_float = (\<lambda>s. if s \<noteq> [] \<and> list_all isdigit s then Some (digits_value s) else None),
      is_zero = (\<lambda>x. x = 0),
      fdiv = (\<lambda>x y. x div y),
      fstr = str_nat\<rparr>"

section \<open>Properties of the track listing\<close>

lemma track_loop_listed:
  assumes "\<forall>l \<in> set ls. str_split l = [] \<or> line_num l \<noteq> None"
  shows "track_loop readable artist album ls tracks = Inr (tracks @ listed_tracks readable artist album ls)"
  using assms
proof (induction ls arbitrary: tracks)
  case Nil
  then show ?case by (simp add: listed_tracks_def)
next
  case (Cons l ls)
  have rest: "\<forall>l \<in> set ls. str_split l = [] \<or> line_num l \<noteq> None"
    using Cons.prems by simp
  show ?case
  proof (cases "str_split l")
    case Nil
    then show ?thesis
      using Cons.IH [OF rest] by (simp add: listed_tracks_def)
  next
    case (Cons w words)
    then obtain num where num: "py_int w = Inr num" "line_num l = Some num"
      using Cons.prems by (auto simp: line_num_def split: sum.splits)
    show ?thesis
      using Cons num Cons.IH [OF rest]
      by (simp add: listed_tracks_def line_item_def)
  qed
qed

text \<open>
  C10: when the listing file can be read but holds fewer than two lines, \<open>trackdata\<close>
  raises \<open>IndexError\<close> (from popping the album or the artist line); it does not return
  the empty list.
\<close>

theorem trackdata_short_file_raises:
  assumes "read_lines fname = Some lines" and "length lines < 2"
  shows "trackdata read_lines readable fname = Inl IndexError"
  using assms by (auto simp: trackdata_def split: list.splits)

theorem trackdata_short_file_raises_witness:
  "trackdata (\<lambda>f. Some []) (\<lambda>f. True) ''titels'' = Inl IndexError
   \<and> trackdata (\<lambda>f. Some [''Demo'']) (\<lambda>f. True) ''titels'' = Inl IndexError
   \<and> trackdata (\<lambda>f. Some []) (\<lambda>f. True) ''titels'' \<noteq> Inr []"
  using trackdata_short_file_raises [of "\<lambda>f. Some []" "''titels''" "[]" "\<lambda>f. True"]
    trackdata_short_file_raises [of "\<lambda>f. Some [''Demo'']" "''titels''" "[''Demo'']" "\<lambda>f. True"]
  by simp

section \<open>The dispatcher of make-mp3.py\<close>

subsection \<open>The limit on running conversions\<close>

lemma running_append [simp]: "running (xs @ ys) = running xs + running ys"
  by (simp add: running_def)

lemma running_outcome [simp]: "running [outcome_line fn r] = - 1"
  by (simp add: running_def outcome_line_def)

lemma manage_loop_bounded:
  assumes "manage_loop poll t i ps out = (ps', out')"
    and "\<forall>k. running (take k out) \<le> m"
  shows "length ps' \<le> length ps
     \<and> running out' - int (length ps') = running out - int (length ps)
     \<and> (\<forall>k. running (take k out') \<le> m)"
  using assms
proof (induction poll t i ps out rule: manage_loop.induct)
  case (1 poll t i ps out)
  show ?case
  proof (cases "i < length ps")
    case False
    then show ?thesis using "1.prems" by (simp add: manage_loop.simps)
  next
    case True
    note lt = this
    show ?thesis
    proof (cases "poll (snd (ps ! i)) t")
      case None
      then show ?thesis
        using "1.IH"(1) [OF lt None] "1.prems" lt by (simp add: manage_loop.simps)
    next
      case (Some r)
      let ?out = "out @ [outcome_line (fst (ps ! i)) r]"
      have mem: "ps ! i \<in> set ps" using lt by simp
      have bound: "\<forall>k. running (take k ?out) \<le> m"
      proof
        fix k
        have whole: "running out \<le> m"
          using "1.prems"(2) [rule_format, of "length out"] by simp
        show "running (take k ?out) \<le> m"
        proof (cases "k \<le> length out")
          case True
          then show ?thesis using "1.prems"(2) by simp
        next
          case False
          then show ?thesis using whole by simp
        qed
      qed
      have run: "manage_loop poll t (i + 1) (remove1 (ps ! i) ps) ?out = (ps', out')"
        using "1.prems"(1) lt Some by (simp add: manage_loop.simps)
      from "1.IH"(2) [OF lt Some run bound] mem lt
      show ?thesis by (auto simp: length_remove1)
    qed
  qed
qed

lemma bounded_manageprocs: "bounded m w \<Longrightarrow> bounded m (manageprocs poll w)"
proof -
  assume b: "bounded m w"
  obtain ps' out' where r: "manage_loop poll (clock w) 0 (procs w) (stdout w) = (ps', out')"
    by (cases "manage_loop poll (clock w) 0 (procs w) (stdout w)")
  from b have pre: "\<forall>k. running (take k (stdout w)) \<le> int m"
    by (simp add: bounded_def)
  from manage_loop_bounded [OF r pre] b show ?thesis
    by (simp add: bounded_def manageprocs_def r)
qed

lemma bounded_wait_for_slot:
  "bounded m w \<Longrightarrow> bounded m (snd (wait_for_slot poll maxprocs n w))"
  by (induction n arbitrary: w) (simp_all add: bounded_manageprocs)

lemma wait_for_slot_Returned:
  "wait_for_slot poll maxprocs n w = (Returned, w1) \<Longrightarrow> length (procs w1) \<noteq> maxprocs"
  by (induction n arbitrary: w) (auto split: if_splits)

lemma bounded_drain: "bounded m w \<Longrightarrow> bounded m (snd (drain poll n w))"
  by (induction n arbitrary: w) (simp_all add: bounded_manageprocs)

lemma bounded_launch:
  assumes "bounded m w" and "length (procs w) \<noteq> m"
    and "startmp3 popen_ok track w = (Inr p, w2)"
  shows "bounded m (w2\<lparr>procs := procs w2 @ [p]\<rparr>)"
proof -
  obtain num title artist album ifname ofname
    where track: "track = (num, title, artist, album, ifname, ofname)"
    by (cases track)
  from assms(3) have w2: "w2 = w\<lparr>popens := popens w @ [lame_args track],
      stdout := stdout w @ [StartProcessing title ofname]\<rparr>"
    by (auto simp: startmp3_def track split: if_splits)
  have lt: "length (procs w) < m" using assms(1,2) by (simp add: bounded_def)
  have pre: "\<forall>k. running (take k (stdout w)) \<le> int m"
    and eq: "running (stdout w) = int (length (procs w))"
    using assms(1) by (simp_all add: bounded_def)
  have "running (take k (stdout w @ [StartProcessing title ofname])) \<le> int m" for k
  proof (cases "k \<le> length (stdout w)")
    case True
    then show ?thesis using pre by simp
  next
    case False
    then show ?thesis using eq lt by (simp add: running_def)
  qed
  then show ?thesis
    using lt eq by (simp add: bounded_def w2 running_def)
qed

lemma startmp3_fails: "startmp3 popen_ok track w = (Inl e, w2) \<Longrightarrow> w2 = w"
  by (auto simp: startmp3_def split: prod.splits if_splits)

lemma bounded_start_tracks:
  "bounded m w \<Longrightarrow> bounded m (snd (start_tracks popen_ok poll m n tracks w))"
proof (induction tracks arbitrary: w)
  case Nil
  then show ?case by simp
next
  case (Cons track tracks)
  obtain st w1 where wait: "wait_for_slot poll m n w = (st, w1)"
    by (cases "wait_for_slot poll m n w")
  have b1: "bounded m w1"
    using bounded_wait_for_slot [OF Cons.prems, of poll m n] wait by simp
  show ?case
  proof (cases "st = Returned")
    case False
    then show ?thesis using wait b1 by simp
  next
    case True
    then have free: "length (procs w1) \<noteq> m"
      using wait wait_for_slot_Returned by blast
    obtain r w2 where start: "startmp3 popen_ok track w1 = (r, w2)"
      by (cases "startmp3 popen_ok track w1")
    show ?thesis
    proof (cases r)
      case (Inl e)
      then show ?thesis
        using wait True start b1 startmp3_fails [of popen_ok track w1 e w2] by simp
    next
      case (Inr p)
      then show ?thesis
        using wait True start Cons.IH [OF bounded_launch [OF b1 free]] by simp
    qed
  qed
qed

lemma bounded_dispatch: "bounded (cpu_count h) w \<Longrightarrow> bounded (cpu_count h) (snd (dispatch h n tracks w))"
  using bounded_start_tracks [of "cpu_count h" w "popen_starts h" "poll_result h" n tracks]
  by (auto simp: dispatch_def bounded_drain split: prod.splits)

lemma checkfor_keeps:
  "checkfor call args rv w = (st, w1) \<Longrightarrow>
     procs w1 = procs w \<and> stdout w1 = stdout w \<and> popens w1 = popens w \<and> stderr w1 = stderr w \<and> clock w1 = clock w"
  by (auto simp: checkfor_def checkfor_list_def required_missing_def Let_def
      split: cmd.splits sum.splits if_splits list.splits)

lemma bounded_main_mp3: "bounded (cpu_count h) (snd (main_mp3 h n argv))"
proof -
  obtain st w where chk: "checkfor (subprocess_call h) (Argv [''lame'', ''--help'']) 0 world0 = (st, w)"
    by (cases "checkfor (subprocess_call h) (Argv [''lame'', ''--help'']) 0 world0")
  from checkfor_keeps [OF chk] have w: "procs w = []" "stdout w = []"
    by (simp_all add: world0_def)
  then have b: "bounded (cpu_count h) w"
    by (simp add: bounded_def running_def)
  have b': "bounded (cpu_count h) (w\<lparr>stdout := stdout w @ [NoTracksFound]\<rparr>)"
    using w by (simp add: bounded_def running_def take_Cons split: nat.splits)
  have b'': "bounded (cpu_count h) (w\<lparr>stdout := stdout w @ [NoTracksFound], stderr := e\<rparr>)" for e
    using w by (simp add: bounded_def running_def take_Cons split: nat.splits)
  show ?thesis
    using chk b b' b'' bounded_dispatch [OF b]
    by (simp add: main_mp3_def checkfor_mp3_def split: sum.splits list.splits)
qed

lemma is_outcome_outcome_line [simp]: "is_outcome (outcome_line fn r)"
  by (simp add: outcome_line_def)

lemma manage_loop_shrinks:
  "set (fst (manage_loop poll t i ps out)) \<subseteq> set ps
   \<and> length (fst (manage_loop poll t i ps out)) \<le> length ps"
proof (induction poll t i ps out rule: manage_loop.induct)
  case (1 poll t i ps out)
  show ?case
  proof (cases "i < length ps")
    case False
    then show ?thesis by (simp add: manage_loop.simps)
  next
    case True
    note lt = this
    show ?thesis
    proof (cases "poll (snd (ps ! i)) t")
      case None
      then show ?thesis using "1.IH"(1) [OF lt None] lt by (simp add: manage_loop.simps)
    next
      case (Some r)
      have "set (remove1 (ps ! i) ps) \<subseteq> set ps" by (rule set_remove1_subset)
      moreover have "length (remove1 (ps ! i) ps) \<le> length ps" by (simp add: length_remove1)
      ultimately show ?thesis
        using "1.IH"(2) [OF lt Some] lt Some
        by (simp add: manage_loop.simps [of poll t i ps out]) (meson order_trans)
    qed
  qed
qed

lemma mset_map_remove1:
  "x \<in> set xs \<Longrightarrow> mset (map f (remove1 x xs)) + {#f x#} = mset (map f xs)"
  by (induction xs) auto

lemma manage_loop_outcomes:
  assumes "\<forall>p t c. poll p t = Some c \<longrightarrow> c = code p"
  shows "mset (filter is_outcome (snd (manage_loop poll t i ps out)))
        + mset (map (\<lambda>x. outcome_line (fst x) (code (snd x))) (fst (manage_loop poll t i ps out)))
      = mset (filter is_outcome out) + mset (map (\<lambda>x. outcome_line (fst x) (code (snd x))) ps)"
  using assms
proof (induction poll t i ps out rule: manage_loop.induct)
  case (1 poll t i ps out)
  show ?case
  proof (cases "i < length ps")
    case False
    then show ?thesis by (simp add: manage_loop.simps)
  next
    case True
    note lt = this
    show ?thesis
    proof (cases "poll (snd (ps ! i)) t")
      case None
      then show ?thesis
        using "1.IH"(1) [OF lt None "1.prems"] lt by (simp add: manage_loop.simps)
    next
      case (Some r)
      have r: "r = code (snd (ps ! i))"
        using "1.prems" Some by blast
      have mem: "ps ! i \<in> set ps" using lt by simp
      have unfold: "manage_loop poll t i ps out
          = manage_loop poll t (i + 1) (remove1 (ps ! i) ps) (out @ [outcome_line (fst (ps ! i)) r])"
        using lt Some by (simp add: manage_loop.simps [of poll t i ps out])
      show ?thesis
        unfolding unfold
        using "1.IH"(2) [OF lt Some "1.prems"]
          mset_map_remove1 [OF mem, of "\<lambda>x. outcome_line (fst x) (code (snd x))"]
        by (simp add: r)
    qed
  qed
qed

lemma manage_loop_progress:
  assumes "ps \<noteq> []" and "poll (snd (hd ps)) t \<noteq> None"
  shows "length (fst (manage_loop poll t 0 ps out)) < length ps"
proof -
  obtain r where r: "poll (snd (ps ! 0)) t = Some r"
    using assms by (cases ps) auto
  have "manage_loop poll t 0 ps out
      = manage_loop poll t (0 + 1) (remove1 (ps ! 0) ps) (out @ [outcome_line (fst (ps ! 0)) r])"
    using assms(1) r by (simp add: manage_loop.simps [of poll t 0 ps out])
  moreover have "length (remove1 (ps ! 0) ps) < length ps"
    using assms(1) by (cases ps) simp_all
  ultimately show ?thesis
    using manage_loop_shrinks [of poll t "0 + 1" "remove1 (ps ! 0) ps" "out @ [outcome_line (fst (ps ! 0)) r]"]
    by simp
qed

text \<open>What one call of manageprocs does to the world.\<close>

lemma manageprocs_unfold:
  "manageprocs poll w =
     w\<lparr>procs := fst (manage_loop poll (clock w) 0 (procs w) (stdout w)),
       stdout := snd (manage_loop poll (clock w) 0 (procs w) (stdout w)),
       clock := clock w + 1\<rparr>"
  by (simp add: manageprocs_def case_prod_beta)

lemma manageprocs_fields:
  "clock (manageprocs poll w) = clock w + 1"
  "popens (manageprocs poll w) = popens w"
  "calls (manageprocs poll w) = calls w"
  "stderr (manageprocs poll w) = stderr w"
  "log (manageprocs poll w) = log w"
  by (simp_all add: manageprocs_unfold)

lemma manageprocs_shrinks:
  "set (procs (manageprocs poll w)) \<subseteq> set (procs w)"
  "length (procs (manageprocs poll w)) \<le> length (procs w)"
  using manage_loop_shrinks [of poll "clock w" 0 "procs w" "stdout w"]
  by (simp_all add: manageprocs_unfold)

lemma manageprocs_progress:
  assumes "procs w \<noteq> []" and "poll (snd (hd (procs w))) (clock w) \<noteq> None"
  shows "length (procs (manageprocs poll w)) < length (procs w)"
  using manage_loop_progress [of "procs w" poll "clock w" "stdout w"] assms
  by (simp add: manageprocs_unfold)

lemma manageprocs_outcomes:
  assumes "\<forall>p t c. poll p t = Some c \<longrightarrow> c = code p"
  shows "mset (filter is_outcome (stdout (manageprocs poll w)))
        + mset (map (\<lambda>x. outcome_line (fst x) (code (snd x))) (procs (manageprocs poll w)))
      = mset (filter is_outcome (stdout w)) + mset (map (\<lambda>x. outcome_line (fst x) (code (snd x))) (procs w))"
  using manage_loop_outcomes [OF assms, of "clock w" 0 "procs w" "stdout w"]
  by (simp add: manageprocs_unfold)

lemma accounted_manageprocs:
  assumes "\<forall>p t c. poll p t = Some c \<longrightarrow> c = code p" and "accounted code started w"
  shows "accounted code started (manageprocs poll w)"
  using assms(2) manageprocs_outcomes [OF assms(1), of w] manageprocs_shrinks(1) [of poll w]
  by (auto simp: accounted_def manageprocs_fields)

lemma wait_for_slot_preserves:
  assumes "\<And>w. P w \<Longrightarrow> P (manageprocs poll w)" and "P w"
  shows "P (snd (wait_for_slot poll m n w))"
  using assms(2) by (induction n arbitrary: w) (simp_all add: assms(1))

lemma drain_preserves:
  assumes "\<And>w. P w \<Longrightarrow> P (manageprocs poll w)" and "P w"
  shows "P (snd (drain poll n w))"
  using assms(2) by (induction n arbitrary: w) (simp_all add: assms(1))

lemma manageprocs_measure:
  assumes "\<forall>x \<in> set (procs w). \<forall>t\<ge>T. poll (snd x) t \<noteq> None" and "procs w \<noteq> []"
    and "T - clock w + length (procs w) \<le> Suc n"
  shows "T - clock (manageprocs poll w) + length (procs (manageprocs poll w)) \<le> n"
proof (cases "T \<le> clock w")
  case True
  then have "poll (snd (hd (procs w))) (clock w) \<noteq> None"
    using assms(1,2) by simp
  with manageprocs_progress [of w poll] assms(2,3) True show ?thesis
    by (simp add: manageprocs_fields)
next
  case False
  then show ?thesis
    using manageprocs_shrinks(2) [of poll w] assms(3) by (simp add: manageprocs_fields)
qed

lemma exited_manageprocs:
  assumes "\<forall>x \<in> set (procs w). \<forall>t\<ge>T. poll (snd x) t \<noteq> None"
  shows "\<forall>x \<in> set (procs (manageprocs poll w)). \<forall>t\<ge>T. poll (snd x) t \<noteq> None"
  using assms manageprocs_shrinks(1) [of poll w] by blast

lemma drain_returns:
  assumes "\<forall>x \<in> set (procs w). \<forall>t\<ge>T. poll (snd x) t \<noteq> None"
    and "T - clock w + length (procs w) \<le> n"
  shows "fst (drain poll n w) = Returned \<and> procs (snd (drain poll n w)) = []"
  using assms
proof (induction n arbitrary: w)
  case 0
  then show ?case by simp
next
  case (Suc n)
  show ?case
  proof (cases "procs w = []")
    case True
    then show ?thesis by simp
  next
    case False
    from Suc.IH [OF exited_manageprocs [OF Suc.prems(1)] manageprocs_measure [OF Suc.prems(1) False Suc.prems(2)]]
    show ?thesis using False by simp
  qed
qed

lemma wait_for_slot_returns:
  assumes "\<forall>x \<in> set (procs w). \<forall>t\<ge>T. poll (snd x) t \<noteq> None"
    and "T - clock w + length (procs w) \<le> n" and "0 < m"
  shows "fst (wait_for_slot poll m n w) = Returned"
  using assms(1,2)
proof (induction n arbitrary: w)
  case 0
  then show ?case using assms(3) by simp
next
  case (Suc n)
  show ?case
  proof (cases "length (procs w) = m")
    case False
    then show ?thesis by simp
  next
    case True
    then have ne: "procs w \<noteq> []" using assms(3) by auto
    from Suc.IH [OF exited_manageprocs [OF Suc.prems(1)] manageprocs_measure [OF Suc.prems(1) ne Suc.prems(2)]]
    show ?thesis using True by simp
  qed
qed

lemma accounted_launch:
  assumes "accounted code started w" and "startmp3 popen_ok track w = (Inr p, w2)"
  shows "accounted code (started @ [track]) (w2\<lparr>procs := procs w2 @ [p]\<rparr>)"
proof -
  obtain num title artist album ifname ofname
    where track: "track = (num, title, artist, album, ifname, ofname)"
    by (cases track)
  from assms(2) have w2: "w2 = w\<lparr>popens := popens w @ [lame_args track],
      stdout := stdout w @ [StartProcessing title ofname]\<rparr>"
    and p: "p = (ofname, length (popens w))"
    by (auto simp: startmp3_def track split: if_splits)
  have len: "length (popens w) = length started"
    using assms(1) by (simp add: accounted_def)
  have rhs: "map (\<lambda>p. outcome_line (track_ofname ((started @ [track]) ! p)) (code p)) [0..<length (started @ [track])]
      = map (\<lambda>p. outcome_line (track_ofname (started ! p)) (code p)) [0..<length started]
        @ [outcome_line ofname (code (length started))]"
    by (simp add: nth_append track track_ofname_def)
  have pids: "\<forall>x \<in> set (procs w @ [p]). snd x < length (started @ [track])"
    using assms(1) by (auto simp: accounted_def p len less_Suc_eq)
  have outs: "mset (filter is_outcome (stdout w2))
         + mset (map (\<lambda>x. outcome_line (fst x) (code (snd x))) (procs w @ [p]))
       = mset (map (\<lambda>p. outcome_line (track_ofname ((started @ [track]) ! p)) (code p)) [0..<length (started @ [track])])"
    unfolding rhs using assms(1) by (simp add: accounted_def w2 p len)
  have pop: "popens w2 = map lame_args (started @ [track])"
    using assms(1) by (simp add: accounted_def w2)
  have same: "procs w2 = procs w" by (simp add: w2)
  show ?thesis
    unfolding accounted_def using pids outs pop by (simp add: same)
qed

lemma startmp3_starts:
  assumes "popen_ok (lame_args track)"
  shows "\<exists>p w2. startmp3 popen_ok track w = (Inr p, w2)"
  using assms by (cases track) (simp add: startmp3_def)

lemma start_tracks_completes:
  assumes cons: "\<forall>p t c. poll p t = Some c \<longrightarrow> c = code p"
    and ok: "\<forall>args. popen_ok args"
    and ex: "\<forall>p<N. \<forall>t\<ge>T. poll p t \<noteq> None"
    and m: "0 < m" and n: "T + m \<le> n"
  shows "length started + length todo \<le> N \<Longrightarrow> accounted code started w \<Longrightarrow> bounded m w \<Longrightarrow>
     fst (start_tracks popen_ok poll m n todo w) = Returned
     \<and> accounted code (started @ todo) (snd (start_tracks popen_ok poll m n todo w))
     \<and> bounded m (snd (start_tracks popen_ok poll m n todo w))"
proof (induction todo arbitrary: started w)
  case Nil
  then show ?case by simp
next
  case (Cons track todo)
  obtain st w1 where wait: "wait_for_slot poll m n w = (st, w1)"
    by (cases "wait_for_slot poll m n w")
  have pids: "\<forall>x \<in> set (procs w). snd x < N"
    using Cons.prems(1,2) by (auto simp: accounted_def)
  then have exited: "\<forall>x \<in> set (procs w). \<forall>t\<ge>T. poll (snd x) t \<noteq> None"
    using ex by blast
  have "length (procs w) \<le> m" using Cons.prems(3) by (simp add: bounded_def)
  then have fuel: "T - clock w + length (procs w) \<le> n" using n by simp
  have st: "st = Returned"
    using wait_for_slot_returns [OF exited fuel m] wait by simp
  have acc1: "accounted code started w1"
    using wait_for_slot_preserves [of "accounted code started" poll w m n]
      accounted_manageprocs [OF cons] Cons.prems(2) wait by simp
  have b1: "bounded m w1"
    using bounded_wait_for_slot [OF Cons.prems(3), of poll m n] wait by simp
  have free: "length (procs w1) \<noteq> m"
    using wait st wait_for_slot_Returned by blast
  obtain p w2 where start: "startmp3 popen_ok track w1 = (Inr p, w2)"
    using startmp3_starts [of popen_ok track w1] ok by blast
  have len: "length (started @ [track]) + length todo \<le> N"
    using Cons.prems(1) by simp
  from Cons.IH [OF len accounted_launch [OF acc1 start] bounded_launch [OF b1 free start]]
  show ?case
    using wait st start by simp
qed

lemma dispatch_completes:
  assumes cons: "\<forall>p t c. poll_result h p t = Some c \<longrightarrow> c = code p"
    and ok: "\<forall>args. popen_starts h args"
    and ex: "\<forall>p<length tracks. \<forall>t\<ge>T. poll_result h p t \<noteq> None"
    and m: "0 < cpu_count h" and n: "T + cpu_count h \<le> n"
    and w: "procs w = []" "stdout w = []" "popens w = []"
  shows "fst (dispatch h n tracks w) = Returned
     \<and> procs (snd (dispatch h n tracks w)) = []
     \<and> popens (snd (dispatch h n tracks w)) = map lame_args tracks
     \<and> mset (filter is_outcome (stdout (snd (dispatch h n tracks w))))
       = mset (map (\<lambda>p. outcome_line (track_ofname (tracks ! p)) (code p)) [0..<length tracks])"
proof -
  let ?poll = "poll_result h" and ?m = "cpu_count h"
  obtain st w1 where st: "start_tracks (popen_starts h) ?poll ?m n tracks w = (st, w1)"
    by (cases "start_tracks (popen_starts h) ?poll ?m n tracks w")
  have acc0: "accounted code [] w" using w by (simp add: accounted_def)
  have b0: "bounded ?m w" using w by (simp add: bounded_def running_def)
  from start_tracks_completes [OF cons ok ex m n, of "[]" tracks w] acc0 b0 st
  have ret: "st = Returned" and acc1: "accounted code tracks w1" and b1: "bounded ?m w1"
    by simp_all
  have exited: "\<forall>x \<in> set (procs w1). \<forall>t\<ge>T. ?poll (snd x) t \<noteq> None"
    using acc1 ex by (auto simp: accounted_def)
  have "length (procs w1) \<le> ?m" using b1 by (simp add: bounded_def)
  then have fuel: "T - clock w1 + length (procs w1) \<le> n" using n by simp
  have d: "dispatch h n tracks w = drain ?poll n w1"
    using st ret by (simp add: dispatch_def)
  have acc2: "accounted code tracks (snd (drain ?poll n w1))"
    using drain_preserves [of "accounted code tracks" ?poll w1 n]
      accounted_manageprocs [OF cons] acc1 by simp
  from drain_returns [OF exited fuel] acc2 show ?thesis
    unfolding d by (simp add: accounted_def)
qed

lemma checkfor_found:
  assumes "call (a # args) = Inr rv"
  shows "checkfor call (Argv (a # args)) rv w
     = (Returned, w\<lparr>calls := calls w @ [a # args], log := log w @ [FoundProgram a]\<rparr>)"
  using assms by (simp add: checkfor_def checkfor_list_def)

lemma main_mp3_completes:
  assumes chk: "subprocess_call h [''lame'', ''--help''] = Inr 0"
    and td: "trackdata (file_lines h) (can_read h) ''titels'' = Inr tracks" "tracks \<noteq> []"
    and cons: "\<forall>p t c. poll_result h p t = Some c \<longrightarrow> c = code p"
    and ok: "\<forall>args. popen_starts h args"
    and ex: "\<forall>p<length tracks. \<forall>t\<ge>T. poll_result h p t \<noteq> None"
    and m: "0 < cpu_count h" and n: "T + cpu_count h \<le> n"
  shows "fst (main_mp3 h n argv) = Returned
     \<and> procs (snd (main_mp3 h n argv)) = []
     \<and> popens (snd (main_mp3 h n argv)) = map lame_args tracks
     \<and> mset (filter is_outcome (stdout (snd (main_mp3 h n argv))))
       = mset (map (\<lambda>p. outcome_line (track_ofname (tracks ! p)) (code p)) [0..<length tracks])"
proof -
  let ?w = "world0\<lparr>calls := calls world0 @ [[''lame'', ''--help'']], log := log world0 @ [FoundProgram ''lame'']\<rparr>"
  have "main_mp3 h n argv = dispatch h n tracks ?w"
    using checkfor_found [of "subprocess_call h" "''lame''" "[''--help'']" 0 world0] chk td
    by (simp add: main_mp3_def checkfor_mp3_def)
  moreover have "procs ?w = []" "stdout ?w = []" "popens ?w = []"
    by (simp_all add: world0_def)
  ultimately show ?thesis
    using dispatch_completes [OF cons ok ex m n, of ?w] by simp
qed

lemma map_nth_upt: "map (\<lambda>p. f (xs ! p)) [0..<length xs] = map f xs"
proof -
  have "map (\<lambda>p. f (xs ! p)) [0..<length xs] = map f (map (\<lambda>p. xs ! p) [0..<length xs])"
    by simp
  then show ?thesis by (simp only: map_nth)
qed

lemma filter_eq_upt: "k < n \<Longrightarrow> filter (\<lambda>p. p = k) [0..<n] = [k]"
  by (induction n) (auto simp: less_Suc_eq)

lemma mset_eq_single: "mset xs = {#x#} \<Longrightarrow> xs = [x]"
  by (cases xs) auto

lemma filter_failure_outcome: "filter is_failure (filter is_outcome out) = filter is_failure out"
proof (induction out)
  case Nil
  show ?case by simp
next
  case (Cons l out)
  then show ?case by (cases l) simp_all
qed

lemma filter_success_outcome: "filter is_success (filter is_outcome out) = filter is_success out"
proof (induction out)
  case Nil
  show ?case by simp
next
  case (Cons l out)
  then show ?case by (cases l) simp_all
qed

lemma is_failure_outcome_line [simp]: "is_failure (outcome_line fn r) \<longleftrightarrow> r \<noteq> 0"
  by (simp add: outcome_line_def)

lemma is_success_outcome_line [simp]: "is_success (outcome_line fn r) \<longleftrightarrow> r = 0"
  by (simp add: outcome_line_def)

lemma one_failure_split:
  assumes out: "mset (filter is_outcome out)
      = mset (map (\<lambda>p. outcome_line (name p) (code p)) [0..<n])"
    and k: "k < n" "code k \<noteq> 0" and others: "\<forall>p<n. p \<noteq> k \<longrightarrow> code p = 0"
  shows "filter is_failure out = [ExitedWithError (name k) (code k)]"
    and "mset (filter is_success out) = mset (map (\<lambda>p. FinishedProcessing (name p)) (filter (\<lambda>p. p \<noteq> k) [0..<n]))"
proof -
  let ?g = "\<lambda>p. outcome_line (name p) (code p)"
  have fail: "filter (\<lambda>p. is_failure (?g p)) [0..<n] = filter (\<lambda>p. p = k) [0..<n]"
    using k others by (intro filter_cong) auto
  have succ: "filter (\<lambda>p. is_success (?g p)) [0..<n] = filter (\<lambda>p. p \<noteq> k) [0..<n]"
    using k others by (intro filter_cong) auto
  have "mset (filter is_failure out) = mset (filter is_failure (filter is_outcome out))"
    by (simp only: filter_failure_outcome)
  also have "\<dots> = filter_mset is_failure (mset (filter is_outcome out))"
    by (simp only: mset_filter)
  also have "\<dots> = filter_mset is_failure (mset (map ?g [0..<n]))"
    by (simp only: out)
  also have "\<dots> = mset (filter is_failure (map ?g [0..<n]))"
    by (simp only: mset_filter)
  also have "\<dots> = mset (map ?g (filter (\<lambda>p. p = k) [0..<n]))"
    by (simp only: filter_map o_def fail)
  also have "\<dots> = {#ExitedWithError (name k) (code k)#}"
    using k by (simp add: filter_eq_upt outcome_line_def)
  finally show "filter is_failure out = [ExitedWithError (name k) (code k)]"
    by (rule mset_eq_single)
  have "mset (filter is_success out) = mset (filter is_success (filter is_outcome out))"
    by (simp only: filter_success_outcome)
  also have "\<dots> = filter_mset is_success (mset (filter is_outcome out))"
    by (simp only: mset_filter)
  also have "\<dots> = filter_mset is_success (mset (map ?g [0..<n]))"
    by (simp only: out)
  also have "\<dots> = mset (filter is_success (map ?g [0..<n]))"
    by (simp only: mset_filter)
  also have "\<dots> = mset (map ?g (filter (\<lambda>p. p \<noteq> k) [0..<n]))"
    by (simp only: filter_map o_def succ)
  also have "map ?g (filter (\<lambda>p. p \<noteq> k) [0..<n])
      = map (\<lambda>p. FinishedProcessing (name p)) (filter (\<lambda>p. p \<noteq> k) [0..<n])"
    using others by (intro map_cong) (auto simp: outcome_line_def)
  finally show "mset (filter is_success out)
      = mset (map (\<lambda>p. FinishedProcessing (name p)) (filter (\<lambda>p. p \<noteq> k) [0..<n]))" .
qed

subsection \<open>The claims about the dispatcher\<close>

lemma demo_trackdata:
  "trackdata (file_lines (demo_host poll)) (can_read (demo_host poll)) ''titels'' = Inr demo_tracks"
proof -
  have "trackdata (\<lambda>f. if f = ''titels'' then Some demo_listing else None) (\<lambda>f. True) ''titels'' = Inr demo_tracks"
    by code_simp
  then show ?thesis by (simp add: demo_host_def)
qed

text \<open>
  C1: whatever the host, the listing and the limit \<open>cpu_count h\<close> are, and however many
  rounds the loops are given, the list \<open>procs\<close> of started conversions whose end has not
  been seen never holds more than \<open>cpu_count h\<close> items, and at no point of the output
  were more than \<open>cpu_count h\<close> conversions shown as started and not yet reported.  A run
  that is cut short by \<open>n\<close> stops in a state the full run passes through, so the bound
  holds at every instant.
\<close>

theorem launched_never_exceeds_limit:
  "length (procs (snd (main_mp3 h n argv))) \<le> cpu_count h
   \<and> (\<forall>k. running (take k (stdout (snd (main_mp3 h n argv)))) \<le> int (cpu_count h))"
  using bounded_main_mp3 [of h n argv] by (simp add: bounded_def)

theorem launched_never_exceeds_limit_witness:
  "procs (snd (main_mp3 (demo_host (\<lambda>p t. None)) 3 [''make-mp3.py'']))
     = [(''track01.mp3'', 0), (''track02.mp3'', 1)]
   \<and> length (procs (snd (main_mp3 (demo_host (\<lambda>p t. None)) 3 [''make-mp3.py''])))
     \<le> cpu_count (demo_host (\<lambda>p t. None))
   \<and> (\<forall>k. running (take k (stdout (snd (main_mp3 (demo_host (\<lambda>p t. None)) 3 [''make-mp3.py'']))))
     \<le> int (cpu_count (demo_host (\<lambda>p t. None))))"
proof -
  have "procs (snd (main_mp3 (demo_host (\<lambda>p t. None)) 3 [''make-mp3.py'']))
     = [(''track01.mp3'', 0), (''track02.mp3'', 1)]"
    by code_simp
  then show ?thesis
    using launched_never_exceeds_limit [of "demo_host (\<lambda>p t. None)" 3 "[''make-mp3.py'']"]
    by simp
qed

text \<open>
  C2, as the claim states it: every conversion that was started would get its outcome
  line.  \<^verbatim>\<open>main\<close> has no handler around \<^verbatim>\<open>startmp3\<close>: when \<^verbatim>\<open>Popen\<close> raises for the
  second track, the exception ends \<^verbatim>\<open>main\<close> while the first conversion, which has ended
  with status 0, is still in \<open>procs\<close>, and no outcome line is ever printed for it.
\<close>

theorem launched_item_without_record_counterexample:
  "main_mp3 flaky_host 5 [''make-mp3.py'']
     = (Raised OSError,
        world0\<lparr>calls := [[''lame'', ''--help'']],
          popens := [[''lame'', ''-S'', ''--preset'', ''standard'', ''--tt'', ''First'', ''--ta'', ''Artist'',
                      ''--tl'', ''Demo'', ''--tn'', ''01'', ''track01.cdda.wav'', ''track01.mp3'']],
          procs := [(''track01.mp3'', 0)],
          stdout := [StartProcessing ''First'' ''track01.mp3''],
          log := [FoundProgram ''lame'']\<rparr>)
   \<and> poll_result flaky_host 0 0 = Some 0
   \<and> filter is_outcome (stdout (snd (main_mp3 flaky_host 5 [''make-mp3.py'']))) = []"
  by code_simp

text \<open>
  C2, amended: when lame is found, the listing gives the tracks \<open>tracks\<close>, every
  \<^verbatim>\<open>Popen\<close> starts, the limit is positive, and every process has ended by round \<open>T\<close>
  with the code \<open>code p\<close>, then with \<open>T + cpu_count h\<close> rounds for each loop \<^verbatim>\<open>main\<close>
  returns, no process is left in \<open>procs\<close>, every track has been started, in order, and
  the output holds exactly one outcome line for each track (as many lines as tracks); when
  all codes are 0 these are the success lines of the tracks.
\<close>

theorem every_launched_item_reported_once:
  assumes "subprocess_call h [''lame'', ''--help''] = Inr 0"
    and "trackdata (file_lines h) (can_read h) ''titels'' = Inr tracks" and "tracks \<noteq> []"
    and "\<forall>p t c. poll_result h p t = Some c \<longrightarrow> c = code p"
    and "\<forall>args. popen_starts h args"
    and "\<forall>p<length tracks. \<forall>t\<ge>T. poll_result h p t \<noteq> None"
    and "0 < cpu_count h" and "T + cpu_count h \<le> n"
  shows "\<exists>w. main_mp3 h n argv = (Returned, w) \<and> procs w = [] \<and> popens w = map lame_args tracks
     \<and> mset (filter is_outcome (stdout w))
       = mset (map (\<lambda>p. outcome_line (track_ofname (tracks ! p)) (code p)) [0..<length tracks])
     \<and> length (filter is_outcome (stdout w)) = length tracks
     \<and> ((\<forall>p<length tracks. code p = 0) \<longrightarrow>
          mset (filter is_outcome (stdout w)) = mset (map (\<lambda>t. FinishedProcessing (track_ofname t)) tracks))"
proof -
  obtain st w where r: "main_mp3 h n argv = (st, w)"
    by (cases "main_mp3 h n argv")
  from main_mp3_completes [OF assms, of argv] r
  have st: "st = Returned" and fin: "procs w = []" "popens w = map lame_args tracks"
    and out: "mset (filter is_outcome (stdout w))
       = mset (map (\<lambda>p. outcome_line (track_ofname (tracks ! p)) (code p)) [0..<length tracks])"
    by simp_all
  have "length (filter is_outcome (stdout w)) = size (mset (filter is_outcome (stdout w)))"
    by (simp only: size_mset)
  also have "\<dots> = length tracks"
    unfolding out by simp
  finally have count: "length (filter is_outcome (stdout w)) = length tracks" .
  have zero: "mset (filter is_outcome (stdout w)) = mset (map (\<lambda>t. FinishedProcessing (track_ofname t)) tracks)"
    if "\<forall>p<length tracks. code p = 0"
  proof -
    have "map (\<lambda>p. outcome_line (track_ofname (tracks ! p)) (code p)) [0..<length tracks]
        = map (\<lambda>p. FinishedProcessing (track_ofname (tracks ! p))) [0..<length tracks]"
      using that by (intro map_cong) (auto simp: outcome_line_def)
    then show ?thesis
      unfolding out by (simp only: map_nth_upt [of "\<lambda>t. FinishedProcessing (track_ofname t)" tracks])
  qed
  show ?thesis
    using r st fin out count zero by blast
qed

theorem every_launched_item_reported_once_witness:
  "fst (main_mp3 (demo_host (\<lambda>p t. if t < 1 then None else Some 0)) 3 [''make-mp3.py'']) = Returned
   \<and> procs (snd (main_mp3 (demo_host (\<lambda>p t. if t < 1 then None else Some 0)) 3 [''make-mp3.py''])) = []
   \<and> mset (filter is_outcome (stdout (snd (main_mp3 (demo_host (\<lambda>p t. if t < 1 then None else Some 0)) 3 [''make-mp3.py'']))))
     = {#FinishedProcessing ''track01.mp3'', FinishedProcessing ''track02.mp3'', FinishedProcessing ''track03.mp3''#}"
proof -
  let ?h = "demo_host (\<lambda>p t. if t < 1 then None else Some 0)"
  have a: "subprocess_call ?h [''lame'', ''--help''] = Inr 0"
    and b: "demo_tracks \<noteq> []"
    and c: "\<forall>p t c. poll_result ?h p t = Some c \<longrightarrow> c = (\<lambda>p. 0) p"
    and d: "\<forall>args. popen_starts ?h args"
    and e: "\<forall>p<length demo_tracks. \<forall>t\<ge>1. poll_result ?h p t \<noteq> None"
    and f: "0 < cpu_count ?h" and g: "1 + cpu_count ?h \<le> 3"
    by (simp_all add: demo_host_def demo_tracks_def)
  from every_launched_item_reported_once [OF a demo_trackdata b c d e f g, of "[''make-mp3.py'']"]
  show ?thesis
    by (auto simp: demo_tracks_def track_ofname_def)
qed

text \<open>
  C3: under the conditions of C2, when the process of track \<open>k\<close> ends with a code other
  than 0 and all others end with 0, \<^verbatim>\<open>main\<close> still returns after starting every track,
  the output holds exactly one failure line, the one of track \<open>k\<close> with its code, and one
  success line for each of the other tracks.
\<close>

theorem failing_item_does_not_stop_siblings:
  assumes "subprocess_call h [''lame'', ''--help''] = Inr 0"
    and "trackdata (file_lines h) (can_read h) ''titels'' = Inr tracks" and "tracks \<noteq> []"
    and "\<forall>p t c. poll_result h p t = Some c \<longrightarrow> c = code p"
    and "\<forall>args. popen_starts h args"
    and "\<forall>p<length tracks. \<forall>t\<ge>T. poll_result h p t \<noteq> None"
    and "0 < cpu_count h" and "T + cpu_count h \<le> n"
    and "k < length tracks" and "code k \<noteq> 0" and "\<forall>p<length tracks. p \<noteq> k \<longrightarrow> code p = 0"
  shows "\<exists>w. main_mp3 h n argv = (Returned, w) \<and> procs w = [] \<and> popens w = map lame_args tracks
     \<and> filter is_failure (stdout w) = [ExitedWithError (track_ofname (tracks ! k)) (code k)]
     \<and> mset (filter is_success (stdout w))
       = mset (map (\<lambda>p. FinishedProcessing (track_ofname (tracks ! p))) (filter (\<lambda>p. p \<noteq> k) [0..<length tracks]))"
proof -
  obtain st w where r: "main_mp3 h n argv = (st, w)"
    by (cases "main_mp3 h n argv")
  from main_mp3_completes [OF assms(1-8), of argv] r
  have st: "st = Returned" and fin: "procs w = []" "popens w = map lame_args tracks"
    and out: "mset (filter is_outcome (stdout w))
       = mset (map (\<lambda>p. outcome_line (track_ofname (tracks ! p)) (code p)) [0..<length tracks])"
    by simp_all
  from one_failure_split [OF out assms(9-11)] r st fin show ?thesis
    by simp
qed

theorem failing_item_does_not_stop_siblings_witness:
  "fst (main_mp3 (demo_host (\<lambda>p t. if t < 1 then None else Some (if p = 1 then 3 else 0))) 3 [''make-mp3.py'']) = Returned
   \<and> filter is_failure (stdout (snd (main_mp3 (demo_host (\<lambda>p t. if t < 1 then None else Some (if p = 1 then 3 else 0))) 3 [''make-mp3.py''])))
     = [ExitedWithError ''track02.mp3'' 3]
   \<and> mset (filter is_success (stdout (snd (main_mp3 (demo_host (\<lambda>p t. if t < 1 then None else Some (if p = 1 then 3 else 0))) 3 [''make-mp3.py'']))))
     = {#FinishedProcessing ''track01.mp3'', FinishedProcessing ''track03.mp3''#}"
proof -
  let ?h = "demo_host (\<lambda>p t. if t < 1 then None else Some (if p = 1 then 3 else 0))"
  let ?code = "\<lambda>p::nat. if p = 1 then 3 else (0::int)"
  have a: "subprocess_call ?h [''lame'', ''--help''] = Inr 0"
    and b: "demo_tracks \<noteq> []"
    and c: "\<forall>p t c. poll_result ?h p t = Some c \<longrightarrow> c = ?code p"
    and d: "\<forall>args. popen_starts ?h args"
    and e: "\<forall>p<length demo_tracks. \<forall>t\<ge>1. poll_result ?h p t \<noteq> None"
    and f: "0 < cpu_count ?h" and g: "1 + cpu_count ?h \<le> 3"
    and k: "1 < length demo_tracks" "?code 1 \<noteq> 0" "\<forall>p<length demo_tracks. p \<noteq> 1 \<longrightarrow> ?code p = 0"
    by (simp_all add: demo_host_def demo_tracks_def)
  from failing_item_does_not_stop_siblings [OF a demo_trackdata b c d e f g k, of "[''make-mp3.py'']"]
  show ?thesis
    by (auto simp: demo_tracks_def track_ofname_def)
qed

section \<open>The track listing and the empty run\<close>

text \<open>
  C8: when the listing file cannot be opened or read, \<open>trackdata\<close> returns the empty
  list; when it holds the album line, the artist line and track lines that are blank or
  start with a number, \<open>trackdata\<close> returns, in the order of the listing, the items of
  exactly those lines that are not blank and whose input file is readable.  The lines
  whose input file is not readable leave no trace, and nothing is raised.
\<close>

theorem trackdata_omits_unreadable:
  "(read_lines fname = None \<longrightarrow> trackdata read_lines readable fname = Inr [])
   \<and> (read_lines fname = Some (l1 # l2 # ls) \<and> (\<forall>l \<in> set ls. str_split l = [] \<or> line_num l \<noteq> None)
        \<longrightarrow> trackdata read_lines readable fname = Inr (listed_tracks readable (strip l2) (strip l1) ls))"
  using track_loop_listed [of ls readable "strip l2" "strip l1" "[]"]
  by (simp add: trackdata_def)

theorem trackdata_omits_unreadable_witness:
  "trackdata (\<lambda>f. None) (\<lambda>f. True) ''titels'' = Inr []
   \<and> trackdata
        (\<lambda>f. if f = ''titels''
              then Some [''Demo'' @ [CHR 0x0A], ''Artist'' @ [CHR 0x0A], ''01 First'' @ [CHR 0x0A], ''02 Second'' @ [CHR 0x0A]]
              else None)
        (\<lambda>f. f = ''track01.cdda.wav'') ''titels''
      = Inr [(1, ''First'', ''Artist'', ''Demo'', ''track01.cdda.wav'', ''track01.mp3'')]"
proof -
  let ?ls = "[''01 First'' @ [CHR 0x0A], ''02 Second'' @ [CHR 0x0A]]"
  have parse: "\<forall>l \<in> set ?ls. str_split l = [] \<or> line_num l \<noteq> None"
    by code_simp
  have items: "listed_tracks (\<lambda>f. f = ''track01.cdda.wav'') (strip (''Artist'' @ [CHR 0x0A])) (strip (''Demo'' @ [CHR 0x0A])) ?ls
      = [(1, ''First'', ''Artist'', ''Demo'', ''track01.cdda.wav'', ''track01.mp3'')]"
    by code_simp
  show ?thesis
    using trackdata_omits_unreadable [where read_lines = "\<lambda>f. None" and fname = "''titels''"
        and readable = "\<lambda>f. True"]
      trackdata_omits_unreadable [where
        read_lines = "\<lambda>f. if f = ''titels''
              then Some [''Demo'' @ [CHR 0x0A], ''Artist'' @ [CHR 0x0A], ''01 First'' @ [CHR 0x0A], ''02 Second'' @ [CHR 0x0A]]
              else None"
        and fname = "''titels''" and ?l1.0 = "''Demo'' @ [CHR 0x0A]" and ?l2.0 = "''Artist'' @ [CHR 0x0A]"
        and ls = ?ls and readable = "\<lambda>f. f = ''track01.cdda.wav''"]
      parse items
    by simp
qed

text \<open>
  C5, as the claim states it: an empty listing would end the program with exit status 0.
  In a directory without a listing the program ends with exit status 1.
\<close>

theorem no_tracks_exit_code_counterexample:
  "trackdata (file_lines empty_host) (can_read empty_host) ''titels'' = Inr []
   \<and> exit_code (fst (main_mp3 empty_host 0 [''make-mp3.py''])) = Some 1
   \<and> exit_code (fst (main_mp3 empty_host 0 [''make-mp3.py''])) \<noteq> Some 0"
  by (simp add: main_mp3_def checkfor_mp3_def checkfor_def checkfor_list_def trackdata_def empty_host_def world0_def)

text \<open>
  C5, amended: when lame is found and the listing yields no track, \<^verbatim>\<open>main\<close> starts no
  conversion, prints \<^verbatim>\<open>No tracks found.\<close> and the usage lines, and ends the program
  with exit status 1 (\<^verbatim>\<open>sys.exit(1)\<close>).
\<close>

theorem no_tracks_exits_with_usage:
  assumes "subprocess_call h [''lame'', ''--help''] = Inr 0"
    and "trackdata (file_lines h) (can_read h) ''titels'' = Inr []"
  shows "main_mp3 h n (a # args)
      = (Exited 1,
         world0\<lparr>calls := [[''lame'', ''--help'']], log := [FoundProgram ''lame''],
           stdout := [NoTracksFound],
           stderr := [VersionLine (basename a), UsageLine (basename a), UsageHint]\<rparr>)
     \<and> popens (snd (main_mp3 h n (a # args))) = []
     \<and> exit_code (fst (main_mp3 h n (a # args))) = Some 1"
  using assms
  by (simp add: main_mp3_def checkfor_mp3_def checkfor_def checkfor_list_def world0_def)

theorem no_tracks_exits_with_usage_witness:
  "fst (main_mp3 empty_host 5 [''/usr/local/bin/make-mp3'']) = Exited 1
   \<and> popens (snd (main_mp3 empty_host 5 [''/usr/local/bin/make-mp3''])) = []
   \<and> stdout (snd (main_mp3 empty_host 5 [''/usr/local/bin/make-mp3''])) = [NoTracksFound]
   \<and> stderr (snd (main_mp3 empty_host 5 [''/usr/local/bin/make-mp3'']))
     = [VersionLine ''make-mp3'', UsageLine ''make-mp3'', UsageHint]"
proof -
  have a: "subprocess_call empty_host [''lame'', ''--help''] = Inr 0"
    and b: "trackdata (file_lines empty_host) (can_read empty_host) ''titels'' = Inr []"
    by (simp_all add: empty_host_def trackdata_def)
  have c: "basename ''/usr/local/bin/make-mp3'' = ''make-mp3''"
    by code_simp
  from no_tracks_exits_with_usage [OF a b, of 5 "''/usr/local/bin/make-mp3''" "[]"] c
  show ?thesis by (simp add: world0_def)
qed

section \<open>The required programs\<close>

lemma checkfor_list_fails:
  assumes "probe_fails call (a # args) rv"
  shows "checkfor_list call (a # args) rv w
      = (Exited 1, w\<lparr>calls := calls w @ [a # args], log := log w @ [ProgramNotFound a]\<rparr>)"
  using assms by (auto simp: probe_fails_def checkfor_list_def required_missing_def split: sum.splits)

lemma checkfor_list_passes:
  assumes "call (a # args) = Inr rv"
  shows "checkfor_list call (a # args) rv w
      = (Returned, w\<lparr>calls := calls w @ [a # args], log := log w @ [FoundProgram a]\<rparr>)"
  using assms by (simp add: checkfor_list_def)

text \<open>
  C7: when the probe of a required program fails (the program cannot be started, or it
  does not return the expected value), the program ends with exit status 1 and the only
  processes it has run are the probes: vid2mkv after its probe of ffmpeg, tifftopdf after
  its probe of tiffinfo or, when that one passes, after its probe of tiff2pdf.
\<close>

theorem missing_tool_exits_before_any_launch:
  "(probe_fails (subprocess_call h) [''ffmpeg'', ''-version''] 0 \<longrightarrow>
      fst (main_vid h vq aq files) = Exited 1
      \<and> calls (snd (main_vid h vq aq files)) = [[''ffmpeg'', ''-version'']]
      \<and> popens (snd (main_vid h vq aq files)) = [])
   \<and> (probe_fails (subprocess_call h) [''tiffinfo''] 255 \<longrightarrow>
      fst (main_tiff h fl jpeg quality files) = Exited 1
      \<and> calls (snd (main_tiff h fl jpeg quality files)) = [[''tiffinfo'']]
      \<and> popens (snd (main_tiff h fl jpeg quality files)) = [])
   \<and> (subprocess_call h [''tiffinfo''] = Inr 255 \<and> probe_fails (subprocess_call h) [''tiff2pdf'', ''-v''] 0 \<longrightarrow>
      fst (main_tiff h fl jpeg quality files) = Exited 1
      \<and> calls (snd (main_tiff h fl jpeg quality files)) = [[''tiffinfo''], [''tiff2pdf'', ''-v'']]
      \<and> popens (snd (main_tiff h fl jpeg quality files)) = [])"
proof (intro conjI impI)
  assume p: "probe_fails (subprocess_call h) [''ffmpeg'', ''-version''] 0"
  have r: "main_vid h vq aq files
      = (Exited 1, world0\<lparr>calls := calls world0 @ [[''ffmpeg'', ''-version'']],
                          log := log world0 @ [ProgramNotFound ''ffmpeg'']\<rparr>)"
    using checkfor_list_fails [OF p, of world0] by (simp add: main_vid_def checkfor_def)
  show "fst (main_vid h vq aq files) = Exited 1"
    and "calls (snd (main_vid h vq aq files)) = [[''ffmpeg'', ''-version'']]"
    and "popens (snd (main_vid h vq aq files)) = []"
    by (simp_all add: r world0_def)
next
  assume p: "probe_fails (subprocess_call h) [''tiffinfo''] 255"
  have r: "main_tiff h fl jpeg quality files
      = (Exited 1, world0\<lparr>calls := calls world0 @ [[''tiffinfo'']],
                          log := log world0 @ [ProgramNotFound ''tiffinfo'']\<rparr>)"
    using checkfor_list_fails [OF p, of world0] by (simp add: main_tiff_def checkfor_def)
  show "fst (main_tiff h fl jpeg quality files) = Exited 1"
    and "calls (snd (main_tiff h fl jpeg quality files)) = [[''tiffinfo'']]"
    and "popens (snd (main_tiff h fl jpeg quality files)) = []"
    by (simp_all add: r world0_def)
next
  assume "subprocess_call h [''tiffinfo''] = Inr 255 \<and> probe_fails (subprocess_call h) [''tiff2pdf'', ''-v''] 0"
  then have ok: "subprocess_call h [''tiffinfo''] = Inr 255"
    and p: "probe_fails (subprocess_call h) [''tiff2pdf'', ''-v''] 0"
    by simp_all
  let ?w = "world0\<lparr>calls := calls world0 @ [[''tiffinfo'']], log := log world0 @ [FoundProgram ''tiffinfo'']\<rparr>"
  have r: "main_tiff h fl jpeg quality files
      = (Exited 1, ?w\<lparr>calls := calls ?w @ [[''tiff2pdf'', ''-v'']],
                      log := log ?w @ [ProgramNotFound ''tiff2pdf'']\<rparr>)"
    using checkfor_list_passes [of "subprocess_call h" "''tiffinfo''" "[]" 255 world0] ok
      checkfor_list_fails [OF p, of ?w]
    by (simp add: main_tiff_def checkfor_def)
  show "fst (main_tiff h fl jpeg quality files) = Exited 1"
    and "calls (snd (main_tiff h fl jpeg quality files)) = [[''tiffinfo''], [''tiff2pdf'', ''-v'']]"
    and "popens (snd (main_tiff h fl jpeg quality files)) = []"
    by (simp_all add: r world0_def)
qed

theorem missing_tool_exits_before_any_launch_witness:
  "exit_code (fst (main_vid (tool_host False (Inl OSError) (Inr 0)) 6 3 [''a.avi'', ''b.mp4''])) = Some 1
   \<and> calls (snd (main_vid (tool_host False (Inl OSError) (Inr 0)) 6 3 [''a.avi'', ''b.mp4''])) = [[''ffmpeg'', ''-version'']]
   \<and> fst (main_tiff (tool_host False (Inl OSError) (Inr 0)) demo_floats False 85 [''scan.tif'']) = Exited 1
   \<and> calls (snd (main_tiff (tool_host False (Inl OSError) (Inr 0)) demo_floats False 85 [''scan.tif''])) = [[''tiffinfo'']]"
proof -
  let ?h = "tool_host False (Inl OSError) (Inr 0)"
  have a: "probe_fails (subprocess_call ?h) [''ffmpeg'', ''-version''] 0"
    and b: "probe_fails (subprocess_call ?h) [''tiffinfo''] 255"
    by (simp_all add: probe_fails_def tool_host_def)
  show ?thesis
    using a b
      missing_tool_exits_before_any_launch [where h = ?h and vq = 6 and aq = 3
        and files = "[''a.avi'', ''b.mp4'']" and fl = demo_floats]
      missing_tool_exits_before_any_launch [where h = ?h and files = "[''scan.tif'']"
        and fl = demo_floats and jpeg = False and quality = 85]
    by simp
qed

section \<open>Output names\<close>

lemma splitext_append: "fst (splitext p) @ snd (splitext p) = p"
  by (simp add: splitext_def Let_def)

lemma mkv_name_same: "mkv_name fname = fname \<longleftrightarrow> snd (splitext fname) = ''.mkv''"
proof -
  have "mkv_name fname = fname \<longleftrightarrow> fst (splitext fname) @ ''.mkv'' = fst (splitext fname) @ snd (splitext fname)"
    by (simp only: mkv_name_def splitext_append)
  then show ?thesis by auto
qed

lemma lower_length: "length (lower s) = length s"
  by (simp add: lower_def)

lemma tiff_suffix_no_earlier_match:
  assumes "lower e \<in> set [''.tif'', ''.tiff'']"
  shows "lower (c # b @ e) \<notin> set [''.tif'', ''.tiff'', ''.tif'' @ [CHR 0x0A], ''.tiff'' @ [CHR 0x0A]]"
proof -
  have split: "lower (c # b @ e) = lower_char c # lower b @ lower e"
    by (simp add: lower_def)
  from assms consider (tif) "lower e = ''.tif''" | (tiff) "lower e = ''.tiff''"
    by auto
  then show ?thesis
  proof cases
    case tif
    have "lower b = []" if "lower_char c # lower b @ ''.tif'' = ''.tiff''"
      using that lower_length [of b] by (cases "lower b") simp_all
    then show ?thesis
      unfolding split tif by (auto simp: append_eq_Cons_conv Cons_eq_append_conv)
  next
    case tiff
    show ?thesis
      unfolding split tiff by (auto simp: append_eq_Cons_conv Cons_eq_append_conv)
  qed
qed

lemma tiff_outname_suffix:
  assumes "lower e \<in> set [''.tif'', ''.tiff'']"
  shows "tiff_outname (b @ e) = b @ ''.pdf''"
proof (induction b)
  case Nil
  obtain c cs where e: "e = c # cs"
    using assms by (cases e) (auto simp: lower_def)
  show ?case using assms by (simp add: e)
next
  case (Cons c b)
  have "lower (c # b @ e) \<notin> set [''.tif'', ''.tiff'', ''.tif'' @ [CHR 0x0A], ''.tiff'' @ [CHR 0x0A]]"
    by (rule tiff_suffix_no_earlier_match [OF assms])
  then show ?case using Cons.IH by simp
qed

lemma tiff_suffix_not_pdf:
  assumes "lower e \<in> set [''.tif'', ''.tiff'']"
  shows "e \<noteq> ''.pdf''"
proof
  assume e: "e = ''.pdf''"
  have "lower ''.pdf'' = ''.pdf''" by code_simp
  with assms e show False by simp
qed

text \<open>
  C6, as the claim states it: the output name would differ from the input name for every
  accepted input.  vid2mkv accepts \<^verbatim>\<open>film.mkv\<close> and derives the output name
  \<^verbatim>\<open>film.mkv\<close>; tifftopdf takes every file name and leaves a name without the suffix
  \<^verbatim>\<open>.tif\<close> or \<^verbatim>\<open>.tiff\<close> unchanged.
\<close>

theorem output_name_collides_counterexample:
  "lower (snd (splitext ''film.mkv'')) \<in> set known
   \<and> mkv_name ''film.mkv'' = ''film.mkv''
   \<and> tiff_outname ''scan.tif.bak'' = ''scan.tif.bak''"
  by code_simp

text \<open>
  C6, amended: the output name is a function of the input name.  In vid2mkv it is the
  name without its extension followed by \<^verbatim>\<open>.mkv\<close>, and it equals the input name
  exactly when the extension is \<^verbatim>\<open>.mkv\<close> in lower case; so it differs for every
  accepted input with another extension.  In tifftopdf a name that ends in \<^verbatim>\<open>.tif\<close> or
  \<^verbatim>\<open>.tiff\<close>, in any case, gets that suffix replaced by \<^verbatim>\<open>.pdf\<close> and differs from
  the input name.  In make-mp3 the input and output names of a track differ.
\<close>

theorem output_name_differs_unless_same_suffix:
  "(mkv_name fname = fname \<longleftrightarrow> snd (splitext fname) = ''.mkv'')
   \<and> (lower (snd (splitext fname)) \<in> set known \<and> snd (splitext fname) \<noteq> ''.mkv''
        \<longrightarrow> mkv_name fname \<noteq> fname)
   \<and> (lower e \<in> set [''.tif'', ''.tiff'']
        \<longrightarrow> tiff_outname (b @ e) = b @ ''.pdf'' \<and> tiff_outname (b @ e) \<noteq> b @ e)
   \<and> wav_name num \<noteq> mp3_name num"
  using mkv_name_same [of fname] tiff_outname_suffix [of e b] tiff_suffix_not_pdf [of e]
  by (auto simp: wav_name_def mp3_name_def)

theorem output_name_differs_unless_same_suffix_witness:
  "lower (snd (splitext ''dir.d/Film.AVI'')) \<in> set known
   \<and> mkv_name ''dir.d/Film.AVI'' = ''dir.d/Film.mkv''
   \<and> mkv_name ''dir.d/Film.AVI'' \<noteq> ''dir.d/Film.AVI''
   \<and> tiff_outname ''page.TIFF'' = ''page.pdf''
   \<and> tiff_outname ''page.TIFF'' \<noteq> ''page.TIFF''
   \<and> wav_name 7 \<noteq> mp3_name 7"
proof -
  have a: "lower (snd (splitext ''dir.d/Film.AVI'')) \<in> set known"
    and b: "snd (splitext ''dir.d/Film.AVI'') \<noteq> ''.mkv''"
    and c: "mkv_name ''dir.d/Film.AVI'' = ''dir.d/Film.mkv''"
    and d: "lower ''.TIFF'' \<in> set [''.tif'', ''.tiff'']"
    by code_simp+
  show ?thesis
    using a b c d
      output_name_differs_unless_same_suffix [of "''dir.d/Film.AVI''" "''.TIFF''" "''page''" 7]
    by simp
qed

section \<open>tifftopdf.py: the page size and the failures of an item\<close>

lemma resolution_absent: "''Resolution:'' \<notin> set txt \<Longrightarrow> resolution fl txt = Inr None"
  by (simp add: resolution_def)

lemma convert_a4:
  assumes "\<not> has_resolution fl res"
  shows "convert h fl jpeg quality fname width len res w
     = (case subprocess_call h (tiff2pdf_cmd jpeg quality (a4_args fname)) of
          Inl e \<Rightarrow>
            (Inl e,
             w\<lparr>log := log w @ [NoResolution fname, Calling (tiff2pdf_cmd jpeg quality (a4_args fname))],
               calls := calls w @ [tiff2pdf_cmd jpeg quality (a4_args fname)]\<rparr>)
        | Inr rv \<Rightarrow>
            (Inr rv,
             w\<lparr>log := log w @ [NoResolution fname, Calling (tiff2pdf_cmd jpeg quality (a4_args fname)),
                               Created (tiff_outname fname)],
               calls := calls w @ [tiff2pdf_cmd jpeg quality (a4_args fname)]\<rparr>))"
  using assms
  by (cases res) (auto simp: convert_def tiff2pdf_cmd_def Let_def split: sum.splits)

text \<open>
  The inner \<^verbatim>\<open>try\<close> block ends without a resolution that counts as true when the
  output has no \<^verbatim>\<open>Resolution:\<close>, when the word after it, without its last character,
  does not parse, and when the second word after it does not parse or the first number is
  zero.
\<close>

lemma resolution_unusable:
  assumes "''Resolution:'' \<notin> set txt
     \<or> (''Resolution:'' \<in> set txt
          \<and> item txt (index_of ''Resolution:'' txt + 1) = Inr r1
          \<and> parse_float fl (butlast r1) = None)
     \<or> (''Resolution:'' \<in> set txt
          \<and> item txt (index_of ''Resolution:'' txt + 1) = Inr r1
          \<and> parse_float fl (butlast r1) = Some xres
          \<and> item txt (index_of ''Resolution:'' txt + 2) = Inr r2
          \<and> (parse_float fl r2 = None \<or> is_zero fl xres))"
  shows "\<exists>res. resolution fl txt = Inr res \<and> \<not> has_resolution fl res"
proof -
  from assms consider
      (absent) "''Resolution:'' \<notin> set txt"
    | (first) "''Resolution:'' \<in> set txt" "item txt (index_of ''Resolution:'' txt + 1) = Inr r1"
        "parse_float fl (butlast r1) = None"
    | (second) "''Resolution:'' \<in> set txt" "item txt (index_of ''Resolution:'' txt + 1) = Inr r1"
        "parse_float fl (butlast r1) = Some xres" "item txt (index_of ''Resolution:'' txt + 2) = Inr r2"
        "parse_float fl r2 = None \<or> is_zero fl xres"
    by fastforce
  then show ?thesis
  proof cases
    case absent
    then have "resolution fl txt = Inr None" by (simp add: resolution_def)
    then show ?thesis by (simp add: has_resolution_def)
  next
    case first
    then have "resolution fl txt = Inr None" by (simp add: resolution_def)
    then show ?thesis by (simp add: has_resolution_def)
  next
    case second
    show ?thesis
    proof (cases "parse_float fl r2")
      case None
      with second have "resolution fl txt = Inr None" by (simp add: resolution_def)
      then show ?thesis by (simp add: has_resolution_def)
    next
      case (Some yres)
      with second have "resolution fl txt = Inr (Some (xres, yres))" and "is_zero fl xres"
        by (simp_all add: resolution_def)
      then show ?thesis by (simp add: has_resolution_def)
    qed
  qed
qed

lemma tiffconv_a4:
  assumes "check_output h [''tiffinfo'', fname] = Inr text"
    and "''Width:'' \<in> set (str_split text)"
    and "item (str_split text) (index_of ''Width:'' (str_split text) + 1) = Inr s1"
    and "parse_float fl s1 = Some width"
    and "item (str_split text) (index_of ''Width:'' (str_split text) + 4) = Inr s4"
    and "parse_float fl s4 = Some len"
    and "resolution fl (str_split text) = Inr res" and "\<not> has_resolution fl res"
  shows "tiffconv h fl jpeg quality fname w
      = (case subprocess_call h (tiff2pdf_cmd jpeg quality (a4_args fname)) of
           Inl e \<Rightarrow>
             ((fname, 0),
              w\<lparr>calls := calls w @ [[''tiffinfo'', fname], tiff2pdf_cmd jpeg quality (a4_args fname)],
                log := log w @ [NoResolution fname, Calling (tiff2pdf_cmd jpeg quality (a4_args fname)),
                                StartFailed fname e]\<rparr>)
         | Inr rv \<Rightarrow>
             ((fname, rv),
              w\<lparr>calls := calls w @ [[''tiffinfo'', fname], tiff2pdf_cmd jpeg quality (a4_args fname)],
                log := log w @ [NoResolution fname, Calling (tiff2pdf_cmd jpeg quality (a4_args fname)),
                                Created (tiff_outname fname)]\<rparr>))"
proof -
  have "tiffconv_try h fl jpeg quality fname w
      = convert h fl jpeg quality fname width len res (w\<lparr>calls := calls w @ [[''tiffinfo'', fname]]\<rparr>)"
    using assms(1-7) by (simp add: tiffconv_try_def to_float_def Let_def)
  then show ?thesis
    by (simp add: tiffconv_def convert_a4 [OF assms(8)] split: sum.splits)
qed

text \<open>
  C9, as the claim states it: every item whose resolution the probe does not give would
  be fitted to A4 with a warning and still be converted.  When the output of tiffinfo has
  no resolution and no width either, or when tiffinfo fails for the file, \<^verbatim>\<open>tiffconv\<close>
  raises before it reaches the resolution: no warning about A4 is logged, tiff2pdf is not
  called, and the failure is logged as an error.
\<close>

theorem missing_resolution_without_width_counterexample:
  "''Resolution:'' \<notin> set (str_split bare_info)
   \<and> main_tiff (tool_host True (Inr bare_info) (Inr 0)) demo_floats False 85 [''scan.tif'']
     = (Returned,
        world0\<lparr>calls := [[''tiffinfo''], [''tiff2pdf'', ''-v''], [''tiffinfo'', ''scan.tif'']],
          log := [FoundProgram ''tiffinfo'', FoundProgram ''tiff2pdf'',
                  StartFailed ''scan.tif'' ValueError, FinishedFile ''scan.tif'']\<rparr>)
   \<and> NoResolution ''scan.tif''
       \<notin> set (log (snd (main_tiff (tool_host True (Inr bare_info) (Inr 0)) demo_floats False 85 [''scan.tif''])))
   \<and> main_tiff (tool_host True (Inl CalledProcessError) (Inr 0)) demo_floats False 85 [''scan.tif'']
     = (Returned,
        world0\<lparr>calls := [[''tiffinfo''], [''tiff2pdf'', ''-v''], [''tiffinfo'', ''scan.tif'']],
          log := [FoundProgram ''tiffinfo'', FoundProgram ''tiff2pdf'',
                  StartFailed ''scan.tif'' CalledProcessError, FinishedFile ''scan.tif'']\<rparr>)"
  by code_simp

text \<open>
  C9, amended: when tiffinfo answers for the file with a width and a length that parse,
  and its output gives no usable resolution (it has no \<^verbatim>\<open>Resolution:\<close>, or the word after
  \<^verbatim>\<open>Resolution:\<close> does not parse as a number, or the second word after it does not parse
  or the first number is zero), \<^verbatim>\<open>tiffconv\<close> logs the warning that the page is fitted to
  A4 and calls tiff2pdf with the arguments \<^verbatim>\<open>-z -p A4 -F\<close>; when tiff2pdf returns, its
  return value is the result for the item and no failure of the item is logged.
\<close>

theorem missing_resolution_falls_back_to_a4:
  assumes "check_output h [''tiffinfo'', fname] = Inr text"
    and "''Width:'' \<in> set (str_split text)"
    and "item (str_split text) (index_of ''Width:'' (str_split text) + 1) = Inr s1"
    and "parse_float fl s1 = Some width"
    and "item (str_split text) (index_of ''Width:'' (str_split text) + 4) = Inr s4"
    and "parse_float fl s4 = Some len"
    and "''Resolution:'' \<notin> set (str_split text)
     \<or> (''Resolution:'' \<in> set (str_split text)
          \<and> item (str_split text) (index_of ''Resolution:'' (str_split text) + 1) = Inr r1
          \<and> parse_float fl (butlast r1) = None)
     \<or> (''Resolution:'' \<in> set (str_split text)
          \<and> item (str_split text) (index_of ''Resolution:'' (str_split text) + 1) = Inr r1
          \<and> parse_float fl (butlast r1) = Some xres
          \<and> item (str_split text) (index_of ''Resolution:'' (str_split text) + 2) = Inr r2
          \<and> (parse_float fl r2 = None \<or> is_zero fl xres))"
  shows "calls (snd (tiffconv h fl jpeg quality fname w))
      = calls w @ [[''tiffinfo'', fname],
                   tiff2pdf_cmd jpeg quality [''-o'', tiff_outname fname, ''-z'', ''-p'', ''A4'', ''-F'', fname]]
     \<and> NoResolution fname \<in> set (log (snd (tiffconv h fl jpeg quality fname w)))
     \<and> level (NoResolution fname) = Warning
     \<and> (\<forall>rv. subprocess_call h
               (tiff2pdf_cmd jpeg quality [''-o'', tiff_outname fname, ''-z'', ''-p'', ''A4'', ''-F'', fname])
             = Inr rv \<longrightarrow>
          tiffconv h fl jpeg quality fname w
            = ((fname, rv),
               w\<lparr>calls := calls w @ [[''tiffinfo'', fname],
                      tiff2pdf_cmd jpeg quality [''-o'', tiff_outname fname, ''-z'', ''-p'', ''A4'', ''-F'', fname]],
                 log := log w @ [NoResolution fname,
                      Calling (tiff2pdf_cmd jpeg quality [''-o'', tiff_outname fname, ''-z'', ''-p'', ''A4'', ''-F'', fname]),
                      Created (tiff_outname fname)]\<rparr>))"
proof -
  obtain res where res: "resolution fl (str_split text) = Inr res" "\<not> has_resolution fl res"
    using resolution_unusable [OF assms(7)] by blast
  have a4: "a4_args fname = [''-o'', tiff_outname fname, ''-z'', ''-p'', ''A4'', ''-F'', fname]"
    by (simp add: a4_args_def)
  note conv = tiffconv_a4 [OF assms(1-6) res, of jpeg quality w, unfolded a4]
  show ?thesis
    unfolding conv by (auto split: sum.splits)
qed

theorem missing_resolution_falls_back_to_a4_witness:
  "tiffconv (tool_host True (Inr demo_info) (Inr 0)) demo_floats False 85 ''scan.tif'' world0
     = ((''scan.tif'', 0),
        world0\<lparr>calls := [[''tiffinfo'', ''scan.tif''],
                           [''tiff2pdf'', ''-o'', ''scan.pdf'', ''-z'', ''-p'', ''A4'', ''-F'', ''scan.tif'']],
          log := [NoResolution ''scan.tif'',
                  Calling [''tiff2pdf'', ''-o'', ''scan.pdf'', ''-z'', ''-p'', ''A4'', ''-F'', ''scan.tif''],
                  Created ''scan.pdf'']\<rparr>)
   \<and> calls (snd (tiffconv (tool_host True (Inr zero_info) (Inr 0)) demo_floats True 70 ''scan.tif'' world0))
       = [[''tiffinfo'', ''scan.tif''],
          [''tiff2pdf'', ''-n'', ''-j'', ''-q'', ''70'', ''-o'', ''scan.pdf'', ''-z'', ''-p'', ''A4'', ''-F'', ''scan.tif'']]
     \<and> NoResolution ''scan.tif''
         \<in> set (log (snd (tiffconv (tool_host True (Inr zero_info) (Inr 0)) demo_floats True 70 ''scan.tif'' world0)))"
proof -
  have absent: "tiffconv (tool_host True (Inr demo_info) (Inr 0)) demo_floats False 85 ''scan.tif'' world0
     = ((''scan.tif'', 0),
        world0\<lparr>calls := [[''tiffinfo'', ''scan.tif''],
                           [''tiff2pdf'', ''-o'', ''scan.pdf'', ''-z'', ''-p'', ''A4'', ''-F'', ''scan.tif'']],
          log := [NoResolution ''scan.tif'',
                  Calling [''tiff2pdf'', ''-o'', ''scan.pdf'', ''-z'', ''-p'', ''A4'', ''-F'', ''scan.tif''],
                  Created ''scan.pdf'']\<rparr>)"
  proof -
    let ?h = "tool_host True (Inr demo_info) (Inr 0)"
    have a: "check_output ?h [''tiffinfo'', ''scan.tif''] = Inr demo_info"
      by (simp add: tool_host_def)
    have b: "''Width:'' \<in> set (str_split demo_info)"
      and c: "item (str_split demo_info) (index_of ''Width:'' (str_split demo_info) + 1) = Inr ''100''"
      and d: "parse_float demo_floats ''100'' = Some 100"
      and e: "item (str_split demo_info) (index_of ''Width:'' (str_split demo_info) + 4) = Inr ''200''"
      and f: "parse_float demo_floats ''200'' = Some 200"
      and g: "''Resolution:'' \<notin> set (str_split demo_info)"
      and n: "tiff_outname ''scan.tif'' = ''scan.pdf''"
      by code_simp+
    have cmd: "tiff2pdf_cmd False 85 [''-o'', ''scan.pdf'', ''-z'', ''-p'', ''A4'', ''-F'', ''scan.tif'']
        = [''tiff2pdf'', ''-o'', ''scan.pdf'', ''-z'', ''-p'', ''A4'', ''-F'', ''scan.tif'']"
      by (simp add: tiff2pdf_cmd_def)
    have r: "subprocess_call ?h [''tiff2pdf'', ''-o'', ''scan.pdf'', ''-z'', ''-p'', ''A4'', ''-F'', ''scan.tif''] = Inr 0"
      by (simp add: tool_host_def)
    have g': "''Resolution:'' \<notin> set (str_split demo_info)
       \<or> (''Resolution:'' \<in> set (str_split demo_info)
            \<and> item (str_split demo_info) (index_of ''Resolution:'' (str_split demo_info) + 1) = Inr []
            \<and> parse_float demo_floats (butlast []) = None)
       \<or> (''Resolution:'' \<in> set (str_split demo_info)
            \<and> item (str_split demo_info) (index_of ''Resolution:'' (str_split demo_info) + 1) = Inr []
            \<and> parse_float demo_floats (butlast []) = Some 0
            \<and> item (str_split demo_info) (index_of ''Resolution:'' (str_split demo_info) + 2) = Inr []
            \<and> (parse_float demo_floats [] = None \<or> is_zero demo_floats 0))"
      using g by (rule disjI1)
    note fallback = missing_resolution_falls_back_to_a4 [OF a b c d e f g', of False 85 world0, unfolded n cmd]
    from fallback r show ?thesis
      by (simp add: world0_def del: tiff_outname.simps)
  qed
  have zero: "calls (snd (tiffconv (tool_host True (Inr zero_info) (Inr 0)) demo_floats True 70 ''scan.tif'' world0))
     = [[''tiffinfo'', ''scan.tif''],
        [''tiff2pdf'', ''-n'', ''-j'', ''-q'', ''70'', ''-o'', ''scan.pdf'', ''-z'', ''-p'', ''A4'', ''-F'', ''scan.tif'']]
   \<and> NoResolution ''scan.tif''
       \<in> set (log (snd (tiffconv (tool_host True (Inr zero_info) (Inr 0)) demo_floats True 70 ''scan.tif'' world0)))"
  proof -
    let ?h = "tool_host True (Inr zero_info) (Inr 0)"
    have a: "check_output ?h [''tiffinfo'', ''scan.tif''] = Inr zero_info"
      by (simp add: tool_host_def)
    have b: "''Width:'' \<in> set (str_split zero_info)"
      and c: "item (str_split zero_info) (index_of ''Width:'' (str_split zero_info) + 1) = Inr ''100''"
      and d: "parse_float demo_floats ''100'' = Some 100"
      and e: "item (str_split zero_info) (index_of ''Width:'' (str_split zero_info) + 4) = Inr ''200''"
      and f: "parse_float demo_floats ''200'' = Some 200"
      and n: "tiff_outname ''scan.tif'' = ''scan.pdf''"
      and q: "str_int 70 = ''70''"
      by code_simp+
    have z: "''Resolution:'' \<in> set (str_split zero_info)
            \<and> item (str_split zero_info) (index_of ''Resolution:'' (str_split zero_info) + 1) = Inr ''0,''
            \<and> parse_float demo_floats (butlast ''0,'') = Some 0
            \<and> item (str_split zero_info) (index_of ''Resolution:'' (str_split zero_info) + 2) = Inr ''300''
            \<and> (parse_float demo_floats ''300'' = None \<or> is_zero demo_floats 0)"
      by code_simp
    have g: "''Resolution:'' \<notin> set (str_split zero_info)
       \<or> (''Resolution:'' \<in> set (str_split zero_info)
            \<and> item (str_split zero_info) (index_of ''Resolution:'' (str_split zero_info) + 1) = Inr ''0,''
            \<and> parse_float demo_floats (butlast ''0,'') = None)
       \<or> (''Resolution:'' \<in> set (str_split zero_info)
            \<and> item (str_split zero_info) (index_of ''Resolution:'' (str_split zero_info) + 1) = Inr ''0,''
            \<and> parse_float demo_floats (butlast ''0,'') = Some 0
            \<and> item (str_split zero_info) (index_of ''Resolution:'' (str_split zero_info) + 2) = Inr ''300''
            \<and> (parse_float demo_floats ''300'' = None \<or> is_zero demo_floats 0))"
      using z by (intro disjI2)
    have cmd: "tiff2pdf_cmd True 70 [''-o'', ''scan.pdf'', ''-z'', ''-p'', ''A4'', ''-F'', ''scan.tif'']
        = [''tiff2pdf'', ''-n'', ''-j'', ''-q'', ''70'', ''-o'', ''scan.pdf'', ''-z'', ''-p'', ''A4'', ''-F'', ''scan.tif'']"
      by (simp add: tiff2pdf_cmd_def q)
    note fallback = missing_resolution_falls_back_to_a4 [OF a b c d e f g, of True 70 world0, unfolded n cmd]
    from fallback show ?thesis
      by (simp add: world0_def del: tiff_outname.simps)
  qed
  show ?thesis
    by (rule conjI [OF absent zero])
qed

text \<open>
  An exception raised anywhere in the \<^verbatim>\<open>try\<close> block of \<^verbatim>\<open>tiffconv\<close> becomes the
  return value 0, which \<^verbatim>\<open>main\<close> logs as a finished file at level \<open>Info\<close>.
\<close>

lemma tiffconv_hides_exception:
  assumes "fst (tiffconv_try h fl jpeg quality fname w) = Inl e"
  shows "fst (tiffconv h fl jpeg quality fname w) = (fname, 0)"
    and "report (fst (tiffconv h fl jpeg quality fname w)) = FinishedFile fname"
    and "level (report (fst (tiffconv h fl jpeg quality fname w))) = Info"
  using assms by (auto simp: tiffconv_def report_def split: prod.splits sum.splits)

text \<open>
  C4: the code at two items whose conversion cannot be started.  For
  \<^verbatim>\<open>missing.tif\<close> tiffinfo fails; for \<^verbatim>\<open>scan.tif\<close> tiff2pdf cannot be executed.  In
  both runs \<^verbatim>\<open>tiffconv\<close> returns the code 0 of a success, and \<^verbatim>\<open>main\<close> returns
  after logging the item as finished; the only trace of the failure is the error line of
  \<^verbatim>\<open>tiffconv\<close>.
\<close>

theorem tiff_launch_failure_reported_as_finished:
  "fst (tiffconv_try (tool_host True (Inl CalledProcessError) (Inr 0)) demo_floats False 85 ''missing.tif'' world0)
     = Inl CalledProcessError
   \<and> fst (tiffconv (tool_host True (Inl CalledProcessError) (Inr 0)) demo_floats False 85 ''missing.tif'' world0)
     = (''missing.tif'', 0)
   \<and> main_tiff (tool_host True (Inl CalledProcessError) (Inr 0)) demo_floats False 85 [''missing.tif'']
     = (Returned,
        world0\<lparr>calls := [[''tiffinfo''], [''tiff2pdf'', ''-v''], [''tiffinfo'', ''missing.tif'']],
          log := [FoundProgram ''tiffinfo'', FoundProgram ''tiff2pdf'',
                  StartFailed ''missing.tif'' CalledProcessError, FinishedFile ''missing.tif'']\<rparr>)
   \<and> fst (tiffconv (tool_host True (Inr demo_info) (Inl OSError)) demo_floats False 85 ''scan.tif'' world0)
     = (''scan.tif'', 0)
   \<and> log (snd (main_tiff (tool_host True (Inr demo_info) (Inl OSError)) demo_floats False 85 [''scan.tif'']))
     = [FoundProgram ''tiffinfo'', FoundProgram ''tiff2pdf'', NoResolution ''scan.tif'',
        Calling [''tiff2pdf'', ''-o'', ''scan.pdf'', ''-z'', ''-p'', ''A4'', ''-F'', ''scan.tif''],
        StartFailed ''scan.tif'' OSError, FinishedFile ''scan.tif'']"
  by code_simp

end
